theory Spec2Isabelle
  imports Main "HOL-Library.AList"
begin

section \<open>Common values\<close>

text \<open>
  The exceptions the three source files can raise by themselves. Every other failure
  (network, database) belongs to the libraries they call and is outside the model.
\<close>

datatype error =
    AttributeError
  | IndexError
  | NameError
  | JSONDecodeError

section \<open>Ingestor \<open>netmiko_cisco_ios_show_inventory\<close>\<close>

text \<open>
  A parsed record (one row of the \<open>show inventory\<close> template) is a dictionary from field
  names to strings; \<open>item.get(k)\<close> is \<open>map_of item k\<close>, with \<open>None\<close> for Python's
  \<open>None\<close>. Strings are byte strings, and \<open>str.lower\<close> is modelled on the ASCII letters.
\<close>

type_synonym item = "(string \<times> string) list"

definition item_get :: "item \<Rightarrow> string \<Rightarrow> string option" where
  "item_get item k = map_of item k"

definition lower_char :: "char \<Rightarrow> char" where
  "lower_char c =
     (case map_of (zip ''ABCDEFGHIJKLMNOPQRSTUVWXYZ'' ''abcdefghijklmnopqrstuvwxyz'') c of
        None \<Rightarrow> c
      | Some l \<Rightarrow> l)"

definition lower :: "string \<Rightarrow> string" where
  "lower s = map lower_char s"

text \<open>\<open>starts_with sub s\<close>: \<open>s\<close> begins with \<open>sub\<close>; \<open>contains sub s\<close> is Python's \<open>sub in s\<close>.\<close>

fun starts_with :: "string \<Rightarrow> string \<Rightarrow> bool" where
  "starts_with [] s = True"
| "starts_with (c # cs) [] = False"
| "starts_with (c # cs) (d # ds) = (c = d \<and> starts_with cs ds)"

fun contains :: "string \<Rightarrow> string \<Rightarrow> bool" where
  "contains sub [] = (sub = [])"
| "contains sub (d # ds) = (starts_with sub (d # ds) \<or> contains sub ds)"

text \<open>Python's truth value of \<open>item.get(k)\<close>: false for \<open>None\<close> and for the empty string.\<close>

definition truthy :: "string option \<Rightarrow> bool" where
  "truthy v = (case v of None \<Rightarrow> False | Some s \<Rightarrow> s \<noteq> [])"

definition MANUFACTURER :: string where
  "MANUFACTURER = ''Cisco''"

definition DEFAULT_MODEL :: string where
  "DEFAULT_MODEL = ''Cisco Unknown device''"

text \<open>
  \<open>part_number\<close> starts as the module constant \<open>DEFAULT_MODEL\<close> and the source later tests
  \<open>part_number is DEFAULT_MODEL\<close>, an identity test: it holds exactly when the variable still
  refers to the constant, not when a parsed string happens to spell the same text. The
  variable is therefore either the constant or a value read from a record.
\<close>

datatype part_number = The_DEFAULT_MODEL | From_item "string option"

fun part_number_value :: "part_number \<Rightarrow> string option" where
  "part_number_value The_DEFAULT_MODEL = Some DEFAULT_MODEL"
| "part_number_value (From_item v) = v"

text \<open>The keyword arguments of the call \<open>device.update(device_o, ...)\<close>.\<close>

record update_kwargs =
  serial :: "string option"
  manufacturer :: string
  model_keyword :: "string option"

text \<open>
  The log as the ingestor sees it: its parsed output, its \<open>ingested\<close> flag and the Device
  reached through \<open>log.discoverable.device\<close>.
\<close>

record 'd log =
  parsed_output :: "item list"
  ingested :: bool
  device :: 'd

text \<open>
  The \<open>for item in log.parsed_output\<close> loop over the pair
  \<open>(part_serial_number, part_number)\<close>. \<open>part_description.lower()\<close> raises
  \<open>AttributeError\<close> when the record has no \<open>name\<close>; the first record whose lowered name
  contains \<open>chassis\<close> sets both variables and breaks.
\<close>

fun chassis_loop ::
  "item list \<Rightarrow> string option \<times> part_number \<Rightarrow> error + (string option \<times> part_number)" where
  "chassis_loop [] acc = Inr acc"
| "chassis_loop (item # rest) acc =
     (case item_get item ''name'' of
        None \<Rightarrow> Inl AttributeError
      | Some part_description \<Rightarrow>
          if contains ''chassis'' (lower part_description)
          then Inr (item_get item ''sn'', From_item (item_get item ''pid''))
          else chassis_loop rest acc)"

text \<open>The block \<open>if part_number is DEFAULT_MODEL\<close>, reading \<open>log.parsed_output[0]\<close>.\<close>

definition first_entry ::
  "item list \<Rightarrow> string option \<times> part_number \<Rightarrow> error + (string option \<times> part_number)" where
  "first_entry records acc =
     (if snd acc = The_DEFAULT_MODEL then
        (case records of
           [] \<Rightarrow> Inl IndexError
         | item # _ \<Rightarrow>
             if truthy (item_get item ''name'') \<and> truthy (item_get item ''sn'')
                \<and> truthy (item_get item ''pid'')
             then Inr (item_get item ''sn'', From_item (item_get item ''pid''))
             else Inr acc)
      else Inr acc)"

text \<open>
  Lines 17 to 35 of \<open>ingest\<close>: the keyword arguments it computes for \<open>device.update\<close>,
  or the exception raised on the way.
\<close>

definition ingest_kwargs :: "item list \<Rightarrow> error + update_kwargs" where
  "ingest_kwargs records =
     (case chassis_loop records (None, The_DEFAULT_MODEL) of
        Inl e \<Rightarrow> Inl e
      | Inr acc \<Rightarrow>
          (case first_entry records acc of
             Inl e \<Rightarrow> Inl e
           | Inr (part_serial_number, part_number) \<Rightarrow>
               Inr \<lparr>serial = part_serial_number,
                    manufacturer = MANUFACTURER,
                    model_keyword = part_number_value part_number\<rparr>))"

text \<open>
  \<open>ingest(log)\<close>. \<open>device.update\<close> belongs to \<open>netdoc.schemas.device\<close>, which is not among
  the sources, so it is the parameter \<open>dev_update\<close>: from the Device and the keyword
  arguments to the updated Device. Every exception of \<open>ingest\<close> is raised before that
  call, so a run that raises returns no new state (\<open>Inl\<close>).
\<close>

definition ingest ::
  "('d \<Rightarrow> update_kwargs \<Rightarrow> 'd) \<Rightarrow> 'd log \<Rightarrow> error + 'd log" where
  "ingest dev_update lg =
     (case ingest_kwargs (parsed_output lg) of
        Inl e \<Rightarrow> Inl e
      | Inr kwargs \<Rightarrow>
          Inr (lg\<lparr>device := dev_update (device lg) kwargs, ingested := True\<rparr>))"

text \<open>The state a caller observes after the call: unchanged when \<open>ingest\<close> raised.\<close>

definition after_ingest :: "('d \<Rightarrow> update_kwargs \<Rightarrow> 'd) \<Rightarrow> 'd log \<Rightarrow> 'd log" where
  "after_ingest dev_update lg =
     (case ingest dev_update lg of Inl e \<Rightarrow> lg | Inr lg' \<Rightarrow> lg')"

text \<open>A record is chassis-tagged when it has a name whose lowered text contains \<open>chassis\<close>.\<close>

definition chassis_tagged :: "item \<Rightarrow> bool" where
  "chassis_tagged item =
     (case item_get item ''name'' of
        None \<Rightarrow> False
      | Some n \<Rightarrow> contains ''chassis'' (lower n))"

text \<open>A non-chassis record has a name, and the name does not mention \<open>chassis\<close>.\<close>

definition non_chassis :: "item \<Rightarrow> bool" where
  "non_chassis item =
     (case item_get item ''name'' of
        None \<Rightarrow> False
      | Some n \<Rightarrow> \<not> contains ''chassis'' (lower n))"

text \<open>
  Modelled from the spec: \<open>device.update\<close> of \<open>netdoc.schemas.device\<close>, which is not among
  the sources. The spec (4.3) has an ingestor apply the field updates of the new data to the
  entity, new data winning over stale fields, a field being set if present in the source:
  an argument that is \<open>None\<close> leaves the Device's field as it was.
\<close>

record device_entity =
  dev_serial :: "string option"
  dev_manufacturer :: "string option"
  dev_model :: "string option"

definition set_if_present :: "string option \<Rightarrow> string option \<Rightarrow> string option" where
  "set_if_present new old = (case new of None \<Rightarrow> old | Some v \<Rightarrow> Some v)"

definition device_update_spec :: "device_entity \<Rightarrow> update_kwargs \<Rightarrow> device_entity" where
  "device_update_spec d kwargs =
     d\<lparr>dev_serial := set_if_present (serial kwargs) (dev_serial d),
       dev_manufacturer := Some (manufacturer kwargs),
       dev_model := set_if_present (model_keyword kwargs) (dev_model d)\<rparr>"


section \<open>The replay script \<open>log_ingest.py\<close>\<close>

text \<open>
  A row of the \<open>DiscoveryLog\<close> table, with the columns the script reads:
  \<open>id\<close>, \<open>command\<close>, \<open>discoverable.address\<close>, \<open>order\<close>, \<open>parsed\<close> and \<open>ingested\<close>.
\<close>

record discovery_log =
  log_id :: int
  log_command :: string
  log_address :: string
  log_order :: int
  log_parsed :: bool
  log_ingested :: bool

text \<open>The constants an operator edits at the top of the script.\<close>

record settings =
  FILTERS :: "string list"
  LOGS :: "int list"
  COMMAND :: string
  STOP_ON_ERROR :: bool
  REINGEST :: bool

text \<open>The values the script has as it stands in the repository.\<close>

definition script_settings :: settings where
  "script_settings =
     \<lparr>FILTERS = [], LOGS = [2296], COMMAND = [], STOP_ON_ERROR = True, REINGEST = False\<rparr>"

text \<open>
  The query set: \<open>filter(parsed=True).order_by("order")\<close>, narrowed by each filter that is
  set. Rows of equal \<open>order\<close> keep their table order.
\<close>

definition select_logs :: "settings \<Rightarrow> discovery_log list \<Rightarrow> discovery_log list" where
  "select_logs cfg tbl =
     (let logs = sort_key log_order (filter log_parsed tbl);
          logs = (if FILTERS cfg \<noteq> []
                  then filter (\<lambda>l. log_address l \<in> set (FILTERS cfg)) logs else logs);
          logs = (if \<not> REINGEST cfg
                  then filter (\<lambda>l. \<not> log_ingested l) logs else logs);
          logs = (if LOGS cfg \<noteq> []
                  then filter (\<lambda>l. log_id l \<in> set (LOGS cfg)) logs else logs);
          logs = (if COMMAND cfg \<noteq> []
                  then filter (\<lambda>l. log_command l = COMMAND cfg) logs else logs)
      in logs)"

text \<open>What the script prints: the line opening each log, then \<open>done\<close> or \<open>failed\<close>.\<close>

datatype printout = Ingesting int string string | Done | Failed

text \<open>
  The state the script works on: the log table, the topology entities (of any type
  \<open>'w\<close>; only the ingestors touch them) and the text printed so far.
\<close>

record 'w replay_state =
  log_table :: "discovery_log list"
  topology :: 'w
  printed :: "printout list"

text \<open>\<open>log.save()\<close>: the row with the log's id is replaced by the log.\<close>

definition save_log :: "discovery_log \<Rightarrow> discovery_log list \<Rightarrow> discovery_log list" where
  "save_log l tbl = map (\<lambda>row. if log_id row = log_id l then l else row) tbl"

text \<open>
  The \<open>for log in logs\<close> loop. \<open>log_ingest\<close> belongs to \<open>netdoc.utils\<close>, which is not among
  the sources, so it is a parameter: from a log and the topology to the topology it leaves
  and the exception it raised, if any. The loop returns the final state and the exception
  that left the script, if any.
\<close>

fun ingest_loop ::
  "bool \<Rightarrow> (discovery_log \<Rightarrow> 'w \<Rightarrow> 'w \<times> 'e option) \<Rightarrow> discovery_log list \<Rightarrow>
   'w replay_state \<Rightarrow> 'w replay_state \<times> 'e option" where
  "ingest_loop stop log_ingest [] s = (s, None)"
| "ingest_loop stop log_ingest (l # ls) s =
     (let s1 = s\<lparr>printed := printed s @ [Ingesting (log_id l) (log_command l) (log_address l)]\<rparr>
      in case log_ingest l (topology s1) of
           (w, None) \<Rightarrow>
             ingest_loop stop log_ingest ls
               (s1\<lparr>topology := w,
                   printed := printed s1 @ [Done],
                   log_table := save_log (l\<lparr>log_ingested := True\<rparr>) (log_table s1)\<rparr>)
         | (w, Some e) \<Rightarrow>
             (let s2 = s1\<lparr>topology := w, printed := printed s1 @ [Failed]\<rparr>
              in if stop then (s2, Some e) else ingest_loop stop log_ingest ls s2))"

text \<open>The whole script: the query set is read once, when the loop starts.\<close>

definition replay ::
  "settings \<Rightarrow> (discovery_log \<Rightarrow> 'w \<Rightarrow> 'w \<times> 'e option) \<Rightarrow>
   'w replay_state \<Rightarrow> 'w replay_state \<times> 'e option" where
  "replay cfg log_ingest s =
     ingest_loop (STOP_ON_ERROR cfg) log_ingest (select_logs cfg (log_table s)) s"

text \<open>The ids of the logs whose ingestion was started, read off the printed text.\<close>

fun attempted :: "printout list \<Rightarrow> int list" where
  "attempted [] = []"
| "attempted (Ingesting i c a # out) = i # attempted out"
| "attempted (Done # out) = attempted out"
| "attempted (Failed # out) = attempted out"

text \<open>
  An ingestor for the examples: it records the id of each log in the topology and raises on
  the log with id 2.
\<close>

definition example_log_ingest :: "discovery_log \<Rightarrow> int list \<Rightarrow> int list \<times> string option" where
  "example_log_ingest l w =
     (if log_id l = 2 then (w, Some ''IngestError'') else (w @ [log_id l], None))"

definition example_row :: "int \<Rightarrow> int \<Rightarrow> bool \<Rightarrow> discovery_log" where
  "example_row i ord done =
     \<lparr>log_id = i, log_command = ''show inventory'', log_address = ''10.0.0.1'',
      log_order = ord, log_parsed = True, log_ingested = done\<rparr>"

definition example_table :: "discovery_log list" where
  "example_table =
     [example_row 3 2 False, example_row 2 1 False, example_row 1 0 False,
      example_row 7 0 True]"

definition example_start :: "int list replay_state" where
  "example_start = \<lparr>log_table = example_table, topology = [], printed = []\<rparr>"

text \<open>The example state once the log with id 1 is ingested.\<close>

definition example_after_first :: "int list replay_state" where
  "example_after_first =
     \<lparr>log_table =
        [example_row 3 2 False, example_row 2 1 False, example_row 1 0 True,
         example_row 7 0 True],
      topology = [1],
      printed = [Ingesting 1 ''show inventory'' ''10.0.0.1'', Done]\<rparr>"


section \<open>Discovery of VMware vSphere hosts: \<open>discovery\<close>\<close>

text \<open>
  A JSON value of the \<open>details\<close> dictionary; \<open>JNull\<close> is Python's \<open>None\<close>, which is also
  what \<open>details.get(k)\<close> gives for a key that is absent.
\<close>

datatype jvalue = JNull | JBool bool | JInt int | JString string

type_synonym details = "(string \<times> jvalue) list"

definition details_get :: "details \<Rightarrow> string \<Rightarrow> jvalue" where
  "details_get d k = (case map_of d k of None \<Rightarrow> JNull | Some v \<Rightarrow> v)"

text \<open>
  The \<open>details\<close> dictionary that \<open>multiple_tasks\<close> builds for its one query and passes,
  serialised, as the name of the task: \<open>template\<close> is \<open>None\<close>, so the entry
  \<open>template if template else command\<close> is the command.
\<close>

definition multiple_tasks_details :: "jvalue \<Rightarrow> details" where
  "multiple_tasks_details verify_cert =
     [(''command'', JString ''pyVmomi''),
      (''template'', JString ''pyVmomi''),
      (''order'', JInt 0),
      (''enable'', JBool False),
      (''supported'', JBool True),
      (''verify_cert'', verify_cert)]"

text \<open>
  One Nornir \<open>Result\<close>: its name, the \<open>hostname\<close> of its host, its \<open>failed\<close> flag and its
  payload \<open>result\<close> (of any type \<open>'r\<close>: the inventory on success, the error text on failure).
\<close>

record 'r result =
  res_name :: string
  res_hostname :: string
  res_failed :: bool
  res_result :: 'r

record discoverable =
  disc_id :: int
  disc_address :: string
  discovered :: bool

text \<open>The row that one call of \<open>discoverylog.create\<close> writes.\<close>

record created_log =
  dl_command :: jvalue
  dl_discoverable_id :: int
  dl_raw_output :: string
  dl_template :: jvalue
  dl_order :: jvalue
  dl_details :: details

record netdoc_db =
  discoverables :: "discoverable list"
  discovery_logs :: "created_log list"

text \<open>
  Modelled from the spec: \<open>discoverable.get\<close> and \<open>discoverable.update\<close> of
  \<open>netdoc.schemas.discoverable\<close>, which is not among the sources. The spec (3) makes the
  address the natural key of a Discoverable, and entities are updated by identity:
  \<open>get(address)\<close> is the Discoverable with that address, \<open>None\<close> when there is none;
  \<open>get(address, discovered=True)\<close> hands it out with \<open>discovered\<close> set; \<open>update\<close> stores
  the object in the place of the Discoverable with its address.
\<close>

definition discoverable_get :: "netdoc_db \<Rightarrow> string \<Rightarrow> bool \<Rightarrow> discoverable option" where
  "discoverable_get db address flag =
     (case find (\<lambda>d. disc_address d = address) (discoverables db) of
        None \<Rightarrow> None
      | Some d \<Rightarrow> Some (if flag then d\<lparr>discovered := True\<rparr> else d))"

definition discoverable_update :: "discoverable \<Rightarrow> netdoc_db \<Rightarrow> netdoc_db" where
  "discoverable_update obj db =
     db\<lparr>discoverables :=
          map (\<lambda>row. if disc_address row = disc_address obj then obj else row)
            (discoverables db)\<rparr>"

text \<open>
  Modelled from the spec: \<open>discoverylog.create\<close> of \<open>netdoc.schemas.discoverylog\<close>, which
  is not among the sources. The spec (6) has the Log Store append one log with the given
  fields.
\<close>

definition discoverylog_create :: "created_log \<Rightarrow> netdoc_db \<Rightarrow> netdoc_db" where
  "discoverylog_create lg db = db\<lparr>discovery_logs := discovery_logs db @ [lg]\<rparr>"

text \<open>
  The loop \<open>for result in multi_result\<close> over the state: database, \<open>host_list\<close>,
  \<open>failed_host_list\<close>. \<open>json.loads\<close> and \<open>json.dumps\<close> are library functions and are
  parameters: \<open>json_loads\<close> gives \<open>None\<close> where \<open>json.loads\<close> raises. An exception leaves the
  database as it is at that moment. \<open>discoverable.get\<close> runs before \<open>json.loads\<close>, but a
  missing Discoverable raises only afterwards, at \<open>discoverable_o.id\<close>.
\<close>

fun save_results ::
  "(string \<Rightarrow> details option) \<Rightarrow> ('r \<Rightarrow> string) \<Rightarrow> 'r result list \<Rightarrow>
   netdoc_db \<times> string list \<times> string list \<Rightarrow>
   (error \<times> netdoc_db) + (netdoc_db \<times> string list \<times> string list)" where
  "save_results json_loads json_dumps [] acc = Inr acc"
| "save_results json_loads json_dumps (r # rs) (db, host_list, failed_host_list) =
     (if res_name r = ''multiple_tasks''
      then save_results json_loads json_dumps rs (db, host_list, failed_host_list)
      else
        (case json_loads (res_name r) of
           None \<Rightarrow> Inl (JSONDecodeError, db)
         | Some details \<Rightarrow>
             (case discoverable_get db (res_hostname r) False of
                None \<Rightarrow> Inl (AttributeError, db)
              | Some discoverable_o \<Rightarrow>
                  save_results json_loads json_dumps rs
                    (discoverylog_create
                       \<lparr>dl_command = details_get details ''command'',
                        dl_discoverable_id = disc_id discoverable_o,
                        dl_raw_output = json_dumps (res_result r),
                        dl_template = details_get details ''template'',
                        dl_order = details_get details ''order'',
                        dl_details = details\<rparr> db,
                     (if disc_address discoverable_o \<notin> set host_list
                      then host_list @ [disc_address discoverable_o] else host_list),
                     (if res_failed r \<and> disc_address discoverable_o \<notin> set failed_host_list
                      then failed_host_list @ [disc_address discoverable_o]
                      else failed_host_list)))))"

text \<open>The loop over \<open>aggregated_results.items()\<close>; the key is not used.\<close>

fun save_outputs ::
  "(string \<Rightarrow> details option) \<Rightarrow> ('r \<Rightarrow> string) \<Rightarrow> (string \<times> 'r result list) list \<Rightarrow>
   netdoc_db \<times> string list \<times> string list \<Rightarrow>
   (error \<times> netdoc_db) + (netdoc_db \<times> string list \<times> string list)" where
  "save_outputs json_loads json_dumps [] acc = Inr acc"
| "save_outputs json_loads json_dumps ((key, multi_result) # rest) acc =
     (case save_results json_loads json_dumps multi_result acc of
        Inl e \<Rightarrow> Inl e
      | Inr acc' \<Rightarrow> save_outputs json_loads json_dumps rest acc')"

text \<open>The loop \<open>for address in host_list\<close> that marks hosts as discovered.\<close>

fun mark_discovered ::
  "string list \<Rightarrow> string list \<Rightarrow> netdoc_db \<Rightarrow> (error \<times> netdoc_db) + netdoc_db" where
  "mark_discovered [] failed_host_list db = Inr db"
| "mark_discovered (address # rest) failed_host_list db =
     (if address \<notin> set failed_host_list
      then (case discoverable_get db address True of
              None \<Rightarrow> Inl (AttributeError, db)
            | Some discoverable_o \<Rightarrow>
                mark_discovered rest failed_host_list (discoverable_update discoverable_o db))
      else mark_discovered rest failed_host_list db)"

text \<open>
  \<open>discovery(nrni)\<close>, from the point where the playbook has run: \<open>aggregated_results\<close> is
  what \<open>nrni.run\<close> returned, one list of results for each host key.
\<close>

definition discovery ::
  "(string \<Rightarrow> details option) \<Rightarrow> ('r \<Rightarrow> string) \<Rightarrow> (string \<times> 'r result list) list \<Rightarrow>
   netdoc_db \<Rightarrow> (error \<times> netdoc_db) + netdoc_db" where
  "discovery json_loads json_dumps aggregated_results db =
     (case save_outputs json_loads json_dumps aggregated_results (db, [], []) of
        Inl e \<Rightarrow> Inl e
      | Inr (db', host_list, failed_host_list) \<Rightarrow>
          mark_discovered host_list failed_host_list db')"




text \<open>The query results of a run: every result but the \<open>multiple_tasks\<close> wrapper entries.\<close>

definition query_results :: "(string \<times> 'r result list) list \<Rightarrow> 'r result list" where
  "query_results aggregated_results =
     filter (\<lambda>r. res_name r \<noteq> ''multiple_tasks'') (concat (map snd aggregated_results))"

text \<open>
  Values for the examples: the name of a query task, a \<open>json.loads\<close> that reads it back, a
  \<open>json.dumps\<close> on payloads given as their serialised text, and a run in which the one host
  has the wrapper entry, a query that succeeded and a query that failed.
\<close>

definition example_name :: string where
  "example_name = ''{command: pyVmomi, template: pyVmomi, order: 0, enable: false, supported: true, verify_cert: true}''"

definition example_loads :: "string \<Rightarrow> details option" where
  "example_loads name =
     (if name = example_name then Some (multiple_tasks_details (JBool True)) else None)"

definition example_dumps :: "string \<Rightarrow> string" where
  "example_dumps payload = payload"

definition example_db :: netdoc_db where
  "example_db =
     \<lparr>discoverables = [\<lparr>disc_id = 1, disc_address = ''10.0.0.1'', discovered = False\<rparr>],
      discovery_logs = []\<rparr>"

definition example_wrapper :: "string result" where
  "example_wrapper =
     \<lparr>res_name = ''multiple_tasks'', res_hostname = ''10.0.0.1'', res_failed = True,
      res_result = ''''\<rparr>"

definition example_query :: "bool \<Rightarrow> string \<Rightarrow> string result" where
  "example_query failed payload =
     \<lparr>res_name = example_name, res_hostname = ''10.0.0.1'', res_failed = failed,
      res_result = payload\<rparr>"

definition example_log :: "string \<Rightarrow> created_log" where
  "example_log payload =
     \<lparr>dl_command = JString ''pyVmomi'', dl_discoverable_id = 1, dl_raw_output = payload,
      dl_template = JString ''pyVmomi'', dl_order = JInt 0,
      dl_details = multiple_tasks_details (JBool True)\<rparr>"





section \<open>The vSphere inventory query: \<open>api_query\<close>\<close>

subsection \<open>The pyVmomi objects read\<close>

text \<open>
  The objects of the vCenter inventory, with the attributes \<open>api_query\<close> reads; every
  \<open>str(x)\<close> of the source is the string held here. An attribute is optional exactly where the
  source probes for it: \<open>hardware.macAddress\<close> (\<open>try ... except AttributeError\<close>),
  \<open>hardware.backing.port\<close> and \<open>portgroup.vlanId\<close> (\<open>hasattr\<close>).

  A backing is of one of several pyVmomi types, and only some have \<open>network\<close> and
  \<open>deviceName\<close>: for these two \<open>None\<close> says that the backing has no such attribute, and
  reading it raises \<open>AttributeError\<close>. In a port connection \<open>portgroupKey\<close> and \<open>portKey\<close>
  are optional values, which pyVmomi leaves \<open>None\<close> when unset.
\<close>

record pnic =
  pnic_key :: string
  pnic_device :: string
  pnic_mac :: string

record host_vswitch =
  vswitch_key :: string
  vswitch_name :: string
  vswitch_pnic :: "string list"
  vswitch_portgroup :: "string list"

record port_connection =
  portgroupKey :: "string option"
  portKey :: "string option"

record backing =
  backing_port :: "port_connection option"
  backing_network :: "string option"
  backing_deviceName :: "string option"

record hardware =
  macAddress :: "string option"
  deviceInfo_label :: string
  connectable_connected :: string
  hardware_backing :: backing

record virtual_machine =
  vm_str :: string
  vm_name_attr :: string
  vm_overallStatus :: string
  runtime_powerState :: string
  config_guestId :: string
  config_guestFullName :: string
  guest_hostName :: string
  guest_ipAddress :: string
  config_hardware_device :: "hardware list"

record host_portgroup =
  portgroup_key :: string
  portgroup_spec_name :: string
  portgroup_vswitch :: string
  portgroup_spec_vswitchName :: string
  portgroup_spec_vlanId :: int

record host_system =
  host_str :: string
  host_name_attr :: string
  parent_str :: string
  parent_name :: string
  systemInfo_vendor :: string
  systemInfo_model :: string
  summary_overallStatus :: string
  summary_managementServerIp :: string
  product_name_attr :: string
  product_fullName :: string
  network_pnic :: "pnic list"
  network_vswitch :: "host_vswitch list"
  host_vm :: "virtual_machine list"
  network_portgroup :: "host_portgroup list"

record dv_portgroup =
  dv_portgroup_str :: string
  dv_portgroup_name :: string
  has_vlanId :: bool
  defaultPortConfig_vlanId :: int

record dvswitch =
  dvswitch_str :: string
  dvswitch_name :: string
  dvswitch_overallStatus :: string
  dvswitch_portgroup :: "dv_portgroup list"

text \<open>
  What the two container views hold once \<open>SmartConnect\<close> and \<open>RetrieveContent\<close> have
  returned; the connection itself is outside the model.
\<close>

record inventory =
  view_hosts :: "host_system list"
  view_dvswitches :: "dvswitch list"

subsection \<open>The dictionaries built\<close>

text \<open>
  A dictionary with fixed keys is a record; one keyed by ids is an association list, written
  with \<open>AList.update\<close>: a new key goes to the end, a key already there keeps its place and
  gets the new value, as in Python.
\<close>

record nic_data =
  mac_address :: string
  label :: string
  connected :: string
  switch_type :: string
  portgroup_id :: "string option"
  portgroup_name :: "string option"
  port :: "string option"

record pnic_data =
  pnic_id :: string
  pnic_name :: string
  pnic_mac_address :: string

record vswitch_data =
  vswitch_id :: string
  vswitch_data_name :: string
  vswitch_nics :: "string list"
  vswitch_portgroups :: "string list"

record guest_data =
  type_id :: string
  type_name :: string
  hostname :: string
  guest_address :: string

record vm_data =
  vm_id :: string
  vm_name :: string
  vm_status :: string
  power_state :: string
  vm_nics :: "nic_data list"
  guest :: guest_data

record portgroup_data =
  pg_id :: string
  pg_name :: string
  pg_vswitch_id :: string
  pg_vswitch_name :: string
  pg_vswitch_type :: string
  vlan :: "int option"

text \<open>
  The portgroup dictionaries are shared and one of them may be changed after it has been
  stored, so they live in a store: a list of dictionaries, a reference being an index. The
  \<open>portgroups\<close> entries hold references.
\<close>

type_synonym ref = nat

type_synonym store = "portgroup_data list"

record host_data =
  host_id :: string
  host_name :: string
  cluster_id :: string
  cluster_name :: string
  vendor :: string
  model :: string
  status :: string
  management_ip :: string
  product_name :: string
  product_fullname :: string
  vswitches :: "(string \<times> vswitch_data) list"
  portgroups :: "(string \<times> ref) list"
  vms :: "(string \<times> vm_data) list"
  nics :: "(string \<times> pnic_data) list"

record dvswitch_data =
  dvswitch_id :: string
  dvswitch_data_name :: string
  dvswitch_status :: string
  dvswitch_portgroups :: "(string \<times> ref) list"

text \<open>The returned dictionary, with the store its references point into.\<close>

record api_result =
  hosts :: "(string \<times> host_data) list"
  dvswitches :: "(string \<times> dvswitch_data) list"
  objects :: store

subsection \<open>The loops over one host\<close>

text \<open>\<open>for nic in host.config.network.pnic\<close>.\<close>

definition physical_nics :: "pnic list \<Rightarrow> (string \<times> pnic_data) list" where
  "physical_nics ps =
     fold (\<lambda>nic d. AList.update (pnic_key nic)
                      \<lparr>pnic_id = pnic_key nic, pnic_name = pnic_device nic,
                       pnic_mac_address = pnic_mac nic\<rparr> d)
       ps []"

text \<open>\<open>for vswitch in host.config.network.vswitch\<close>, with its two inner loops.\<close>

definition host_vswitches :: "host_vswitch list \<Rightarrow> (string \<times> vswitch_data) list" where
  "host_vswitches vs =
     fold (\<lambda>vswitch d. AList.update (vswitch_key vswitch)
                          \<lparr>vswitch_id = vswitch_key vswitch,
                           vswitch_data_name = vswitch_name vswitch,
                           vswitch_nics = fold (\<lambda>nic l. l @ [nic]) (vswitch_pnic vswitch) [],
                           vswitch_portgroups =
                             fold (\<lambda>portgroup l. l @ [portgroup])
                               (vswitch_portgroup vswitch) []\<rparr> d)
       vs []"

text \<open>
  The dictionary for one network adapter: the branch on
  \<open>hasattr(hardware.backing, "port")\<close>. With a port, the portgroup key and the port key
  are copied as they are. Without one, \<open>hardware.backing.network\<close> is read first and
  \<open>hardware.backing.deviceName\<close> second, and a backing that lacks either raises
  \<open>AttributeError\<close>.
\<close>

definition network_adapter :: "string \<Rightarrow> hardware \<Rightarrow> error + nic_data" where
  "network_adapter mac hw =
     (case backing_port (hardware_backing hw) of
        Some p \<Rightarrow>
          Inr \<lparr>mac_address = mac, label = deviceInfo_label hw,
               connected = connectable_connected hw,
               switch_type = ''dvswitch'',
               portgroup_id = portgroupKey p,
               portgroup_name = None,
               port = portKey p\<rparr>
      | None \<Rightarrow>
          (case backing_network (hardware_backing hw) of
             None \<Rightarrow> Inl AttributeError
           | Some network \<Rightarrow>
               (case backing_deviceName (hardware_backing hw) of
                  None \<Rightarrow> Inl AttributeError
                | Some deviceName \<Rightarrow>
                    Inr \<lparr>mac_address = mac, label = deviceInfo_label hw,
                         connected = connectable_connected hw,
                         switch_type = ''vswitch'',
                         portgroup_id = Some network,
                         portgroup_name = Some deviceName,
                         port = None\<rparr>)))"

text \<open>
  \<open>for hardware in vm.config.hardware.device\<close>: a device without \<open>macAddress\<close> is not a
  network adapter and is skipped.
\<close>

fun device_loop :: "hardware list \<Rightarrow> nic_data list \<Rightarrow> error + nic_data list" where
  "device_loop [] nic_list = Inr nic_list"
| "device_loop (hw # rest) nic_list =
     (case macAddress hw of
        None \<Rightarrow> device_loop rest nic_list
      | Some mac \<Rightarrow>
          (case network_adapter mac hw of
             Inl e \<Rightarrow> Inl e
           | Inr nic \<Rightarrow> device_loop rest (nic_list @ [nic])))"

definition vm_data_of :: "virtual_machine \<Rightarrow> error + vm_data" where
  "vm_data_of vm =
     (case device_loop (config_hardware_device vm) [] of
        Inl e \<Rightarrow> Inl e
      | Inr nic_list \<Rightarrow>
          Inr \<lparr>vm_id = vm_str vm, vm_name = vm_name_attr vm,
               vm_status = vm_overallStatus vm,
               power_state = runtime_powerState vm,
               vm_nics = nic_list,
               guest = \<lparr>type_id = config_guestId vm,
                        type_name = config_guestFullName vm,
                        hostname = guest_hostName vm,
                        guest_address = guest_ipAddress vm\<rparr>\<rparr>)"

text \<open>\<open>for vm in host.vm\<close>, over the host's \<open>vms\<close> dictionary.\<close>

fun host_vms ::
  "virtual_machine list \<Rightarrow> (string \<times> vm_data) list \<Rightarrow> error + (string \<times> vm_data) list" where
  "host_vms [] d = Inr d"
| "host_vms (vm # rest) d =
     (case vm_data_of vm of
        Inl e \<Rightarrow> Inl e
      | Inr v \<Rightarrow> host_vms rest (AList.update (vm_str vm) v d))"

text \<open>
  \<open>for portgroup in host.config.network.portgroup\<close>, over the host's \<open>portgroups\<close>
  dictionary, the store and the local variable \<open>portgroup_data\<close> (\<open>None\<close> while it is
  unbound). Each turn makes a new dictionary, binds the variable to it and stores it under
  its id.
\<close>

fun host_portgroup_loop ::
  "host_portgroup list \<Rightarrow> (string \<times> ref) list \<times> store \<times> ref option \<Rightarrow>
   (string \<times> ref) list \<times> store \<times> ref option" where
  "host_portgroup_loop [] acc = acc"
| "host_portgroup_loop (portgroup # rest) (pgs, st, portgroup_data) =
     host_portgroup_loop rest
       (AList.update (portgroup_key portgroup) (length st) pgs,
        st @ [\<lparr>pg_id = portgroup_key portgroup,
               pg_name = portgroup_spec_name portgroup,
               pg_vswitch_id = portgroup_vswitch portgroup,
               pg_vswitch_name = portgroup_spec_vswitchName portgroup,
               pg_vswitch_type = ''vswitch'',
               vlan = Some (portgroup_spec_vlanId portgroup)\<rparr>],
        Some (length st))"

text \<open>
  \<open>for host in hosts\<close>, over \<open>hosts_data\<close>, the store and \<open>portgroup_data\<close>. The loop
  over the virtual machines comes before the one over the portgroups; when it raises,
  \<open>api_query\<close> ends there.
\<close>

fun host_loop ::
  "host_system list \<Rightarrow> (string \<times> host_data) list \<times> store \<times> ref option \<Rightarrow>
   error + ((string \<times> host_data) list \<times> store \<times> ref option)" where
  "host_loop [] acc = Inr acc"
| "host_loop (host # rest) (hosts_data, st, portgroup_data) =
     (case host_vms (host_vm host) [] of
        Inl e \<Rightarrow> Inl e
      | Inr vm_dict \<Rightarrow>
          (case host_portgroup_loop (network_portgroup host) ([], st, portgroup_data) of
             (pgs, st', portgroup_data') \<Rightarrow>
               host_loop rest
                 (AList.update (host_str host)
                    \<lparr>host_id = host_str host,
                     host_name = host_name_attr host,
                     cluster_id = parent_str host,
                     cluster_name = parent_name host,
                     vendor = systemInfo_vendor host,
                     model = systemInfo_model host,
                     status = summary_overallStatus host,
                     management_ip = summary_managementServerIp host,
                     product_name = product_name_attr host,
                     product_fullname = product_fullName host,
                     vswitches = host_vswitches (network_vswitch host),
                     portgroups = pgs,
                     vms = vm_dict,
                     nics = physical_nics (network_pnic host)\<rparr>
                    hosts_data,
                  st', portgroup_data')))"

subsection \<open>The loop over the distributed switches\<close>

text \<open>
  \<open>for portgroup in dvswitch.portgroup\<close>. The source builds the dictionary of the
  portgroup in a variable named \<open>porgroup_data\<close> and never reads it; what it changes and
  stores is \<open>portgroup_data\<close>, the variable of the host loop: the dictionary of the last
  host portgroup, or nothing at all (\<open>NameError\<close>) when no host had a portgroup. The
  reference held by the variable was allocated by the host loop, so it is in the store.
\<close>

fun dv_portgroup_loop ::
  "dv_portgroup list \<Rightarrow> ref option \<Rightarrow> (string \<times> ref) list \<times> store \<Rightarrow>
   error + ((string \<times> ref) list \<times> store)" where
  "dv_portgroup_loop [] portgroup_data acc = Inr acc"
| "dv_portgroup_loop (portgroup # rest) portgroup_data (pgs, st) =
     (case portgroup_data of
        None \<Rightarrow> Inl NameError
      | Some r \<Rightarrow>
          (let st' = (if has_vlanId portgroup
                      then st[r := (st ! r)\<lparr>vlan := Some (defaultPortConfig_vlanId portgroup)\<rparr>]
                      else st)
           in dv_portgroup_loop rest portgroup_data
                (AList.update (pg_id (st' ! r)) r pgs, st')))"

text \<open>\<open>for dvswitch in dvswitches\<close>.\<close>

fun dvswitch_loop ::
  "dvswitch list \<Rightarrow> ref option \<Rightarrow> (string \<times> dvswitch_data) list \<times> store \<Rightarrow>
   error + ((string \<times> dvswitch_data) list \<times> store)" where
  "dvswitch_loop [] portgroup_data acc = Inr acc"
| "dvswitch_loop (dvs # rest) portgroup_data (dvswitches_data, st) =
     (case dv_portgroup_loop (dvswitch_portgroup dvs) portgroup_data ([], st) of
        Inl e \<Rightarrow> Inl e
      | Inr (pgs, st') \<Rightarrow>
          dvswitch_loop rest portgroup_data
            (AList.update (dvswitch_str dvs)
               \<lparr>dvswitch_id = dvswitch_str dvs,
                dvswitch_data_name = dvswitch_name dvs,
                dvswitch_status = dvswitch_overallStatus dvs,
                dvswitch_portgroups = pgs\<rparr>
               dvswitches_data,
             st'))"

text \<open>\<open>api_query\<close>, from the two container views to the returned dictionary.\<close>

definition api_query :: "inventory \<Rightarrow> error + api_result" where
  "api_query content =
     (case host_loop (view_hosts content) ([], [], None) of
        Inl e \<Rightarrow> Inl e
      | Inr (hosts_data, st, portgroup_data) \<Rightarrow>
          (case dvswitch_loop (view_dvswitches content) portgroup_data ([], st) of
             Inl e \<Rightarrow> Inl e
           | Inr (dvswitches_data, st') \<Rightarrow>
               Inr \<lparr>hosts = hosts_data, dvswitches = dvswitches_data, objects = st'\<rparr>))"

text \<open>The portgroup dictionaries an entry refers to, read from the store.\<close>

definition resolve :: "store \<Rightarrow> (string \<times> ref) list \<Rightarrow> (string \<times> portgroup_data) list" where
  "resolve st pgs = map (\<lambda>(k, r). (k, st ! r)) (filter (\<lambda>(k, r). r < length st) pgs)"

text \<open>
  An inventory for the examples: one host with one vswitch portgroup and one virtual machine
  with two adapters, and one distributed switch with one portgroup.
\<close>

definition example_vm :: virtual_machine where
  "example_vm =
     \<lparr>vm_str = ''vim.VirtualMachine:vm-31'', vm_name_attr = ''web01'',
      vm_overallStatus = ''green'', runtime_powerState = ''poweredOn'',
      config_guestId = ''ubuntu64Guest'', config_guestFullName = ''Ubuntu Linux (64-bit)'',
      guest_hostName = ''web01'', guest_ipAddress = ''10.0.0.31'',
      config_hardware_device =
        [\<lparr>macAddress = None, deviceInfo_label = ''Hard disk 1'',
          connectable_connected = ''True'',
          hardware_backing =
            \<lparr>backing_port = None, backing_network = None, backing_deviceName = None\<rparr>\<rparr>,
         \<lparr>macAddress = Some ''00:50:56:00:00:01'', deviceInfo_label = ''Network adapter 1'',
          connectable_connected = ''True'',
          hardware_backing =
            \<lparr>backing_port = None, backing_network = Some ''vim.Network:network-12'',
             backing_deviceName = Some ''VM Network''\<rparr>\<rparr>,
         \<lparr>macAddress = Some ''00:50:56:00:00:02'', deviceInfo_label = ''Network adapter 2'',
          connectable_connected = ''True'',
          hardware_backing =
            \<lparr>backing_port =
               Some \<lparr>portgroupKey = Some ''dvportgroup-22'', portKey = Some ''7''\<rparr>,
             backing_network = None, backing_deviceName = None\<rparr>\<rparr>]\<rparr>"

definition example_host :: host_system where
  "example_host =
     \<lparr>host_str = ''vim.HostSystem:host-9'', host_name_attr = ''esx1'',
      parent_str = ''vim.ClusterComputeResource:domain-c7'', parent_name = ''cluster1'',
      systemInfo_vendor = ''Dell'', systemInfo_model = ''R640'',
      summary_overallStatus = ''green'', summary_managementServerIp = ''10.0.0.5'',
      product_name_attr = ''VMware ESXi'', product_fullName = ''VMware ESXi 7.0'',
      network_pnic = [], network_vswitch = [], host_vm = [example_vm],
      network_portgroup =
        [\<lparr>portgroup_key = ''key-vim.host.PortGroup-VM Network'',
          portgroup_spec_name = ''VM Network'',
          portgroup_vswitch = ''key-vim.host.VirtualSwitch-vSwitch0'',
          portgroup_spec_vswitchName = ''vSwitch0'',
          portgroup_spec_vlanId = 0\<rparr>]\<rparr>"

definition example_dvswitch :: dvswitch where
  "example_dvswitch =
     \<lparr>dvswitch_str = ''vim.dvs.VmwareDistributedVirtualSwitch:dvs-21'',
      dvswitch_name = ''DSwitch'', dvswitch_overallStatus = ''green'',
      dvswitch_portgroup =
        [\<lparr>dv_portgroup_str = ''vim.dvs.DistributedVirtualPortgroup:dvportgroup-22'',
          dv_portgroup_name = ''DPG-Prod'', has_vlanId = False,
          defaultPortConfig_vlanId = 100\<rparr>]\<rparr>"

definition example_inventory :: inventory where
  "example_inventory = \<lparr>view_hosts = [example_host], view_dvswitches = [example_dvswitch]\<rparr>"

text \<open>
  The virtual NIC dictionaries of a returned value, host by host and machine by machine,
  and \<open>api_query\<close> read for them alone.
\<close>

definition returned_nics :: "api_result \<Rightarrow> nic_data list" where
  "returned_nics res =
     concat (map (\<lambda>(host_key, h). concat (map (\<lambda>(vm_key, v). vm_nics v) (vms h)))
               (hosts res))"

definition api_query_nics :: "inventory \<Rightarrow> error + nic_data list" where
  "api_query_nics content =
     (case api_query content of Inl e \<Rightarrow> Inl e | Inr res \<Rightarrow> Inr (returned_nics res))"

text \<open>
  The example inventory with a machine whose one adapter is attached to the distributed
  portgroup without a port assigned yet: the port connection has its \<open>portgroupKey\<close> and
  no \<open>portKey\<close>.
\<close>

definition example_unset_port_vm :: virtual_machine where
  "example_unset_port_vm =
     example_vm
       \<lparr>config_hardware_device :=
          [\<lparr>macAddress = Some ''00:50:56:00:00:03'', deviceInfo_label = ''Network adapter 1'',
            connectable_connected = ''False'',
            hardware_backing =
              \<lparr>backing_port = Some \<lparr>portgroupKey = Some ''dvportgroup-22'', portKey = None\<rparr>,
               backing_network = None, backing_deviceName = None\<rparr>\<rparr>]\<rparr>"

definition example_unset_port_inventory :: inventory where
  "example_unset_port_inventory =
     \<lparr>view_hosts = [example_host\<lparr>host_vm := [example_unset_port_vm]\<rparr>],
      view_dvswitches = [example_dvswitch]\<rparr>"

text \<open>What \<open>api_query\<close> returns on the example inventory.\<close>

definition example_result :: api_result where
  "example_result =
     \<lparr>hosts =
        [(''vim.HostSystem:host-9'',
          \<lparr>host_id = ''vim.HostSystem:host-9'', host_name = ''esx1'',
           cluster_id = ''vim.ClusterComputeResource:domain-c7'',
           cluster_name = ''cluster1'', vendor = ''Dell'', model = ''R640'',
           status = ''green'', management_ip = ''10.0.0.5'',
           product_name = ''VMware ESXi'', product_fullname = ''VMware ESXi 7.0'',
           vswitches = [],
           portgroups = [(''key-vim.host.PortGroup-VM Network'', 0)],
           vms =
             [(''vim.VirtualMachine:vm-31'',
               \<lparr>vm_id = ''vim.VirtualMachine:vm-31'', vm_name = ''web01'',
                vm_status = ''green'', power_state = ''poweredOn'',
                vm_nics =
                  [\<lparr>mac_address = ''00:50:56:00:00:01'', label = ''Network adapter 1'',
                    connected = ''True'', switch_type = ''vswitch'',
                    portgroup_id = Some ''vim.Network:network-12'',
                    portgroup_name = Some ''VM Network'', port = None\<rparr>,
                   \<lparr>mac_address = ''00:50:56:00:00:02'', label = ''Network adapter 2'',
                    connected = ''True'', switch_type = ''dvswitch'',
                    portgroup_id = Some ''dvportgroup-22'',
                    portgroup_name = None, port = Some ''7''\<rparr>],
                guest =
                  \<lparr>type_id = ''ubuntu64Guest'', type_name = ''Ubuntu Linux (64-bit)'',
                   hostname = ''web01'', guest_address = ''10.0.0.31''\<rparr>\<rparr>)],
           nics = []\<rparr>)],
      dvswitches =
        [(''vim.dvs.VmwareDistributedVirtualSwitch:dvs-21'',
          \<lparr>dvswitch_id = ''vim.dvs.VmwareDistributedVirtualSwitch:dvs-21'',
           dvswitch_data_name = ''DSwitch'', dvswitch_status = ''green'',
           dvswitch_portgroups = [(''key-vim.host.PortGroup-VM Network'', 0)]\<rparr>)],
      objects =
        [\<lparr>pg_id = ''key-vim.host.PortGroup-VM Network'', pg_name = ''VM Network'',
          pg_vswitch_id = ''key-vim.host.VirtualSwitch-vSwitch0'',
          pg_vswitch_name = ''vSwitch0'', pg_vswitch_type = ''vswitch'',
          vlan = Some 0\<rparr>]\<rparr>"

section \<open>Properties of the ingestor\<close>

lemma chassis_loop_skip:
  "\<forall>r\<in>set before. non_chassis r \<Longrightarrow>
   chassis_loop (before @ rest) acc = chassis_loop rest acc"
  by (induction before) (auto simp: non_chassis_def split: option.splits)

lemma chassis_loop_none:
  "\<forall>r\<in>set records. non_chassis r \<Longrightarrow> chassis_loop records acc = Inr acc"
  by (induction records) (auto simp: non_chassis_def split: option.splits)

lemma chassis_loop_hit:
  "chassis_tagged c \<Longrightarrow>
   chassis_loop (c # rest) acc = Inr (item_get c ''sn'', From_item (item_get c ''pid''))"
  by (auto simp: chassis_tagged_def split: option.splits)

lemma ingest_kwargs_chassis:
  assumes "records = before @ c # rest"
    and "\<forall>r\<in>set before. non_chassis r"
    and "chassis_tagged c"
  shows "ingest_kwargs records =
         Inr \<lparr>serial = item_get c ''sn'', manufacturer = MANUFACTURER,
              model_keyword = item_get c ''pid''\<rparr>"
proof -
  have "chassis_loop records (None, The_DEFAULT_MODEL) =
        chassis_loop (c # rest) (None, The_DEFAULT_MODEL)"
    unfolding assms(1) using assms(2) by (rule chassis_loop_skip)
  also have "\<dots> = Inr (item_get c ''sn'', From_item (item_get c ''pid''))"
    using assms(3) by (rule chassis_loop_hit)
  finally show ?thesis
    by (simp add: ingest_kwargs_def first_entry_def)
qed

lemma ingest_kwargs_first:
  assumes "records = f # rest"
    and "\<forall>r\<in>set records. non_chassis r"
    and "truthy (item_get f ''name'')"
    and "truthy (item_get f ''sn'')"
    and "truthy (item_get f ''pid'')"
  shows "ingest_kwargs records =
         Inr \<lparr>serial = item_get f ''sn'', manufacturer = MANUFACTURER,
              model_keyword = item_get f ''pid''\<rparr>"
proof -
  have "chassis_loop records (None, The_DEFAULT_MODEL) = Inr (None, The_DEFAULT_MODEL)"
    using assms(2) by (rule chassis_loop_none)
  then show ?thesis
    using assms(3-5) by (simp add: ingest_kwargs_def first_entry_def assms(1))
qed

text \<open>
  C4. When the parsed output holds a chassis-tagged record with \<open>sn = "ABC123"\<close> and
  \<open>pid = "WS-C1"\<close>, every record before it being a non-chassis record (a record with a name
  that does not mention chassis) and any records after it, \<open>ingest\<close> returns normally and has
  called \<open>device.update\<close> on the log's Device with \<open>serial = "ABC123"\<close>,
  \<open>model_keyword = "WS-C1"\<close> and the manufacturer \<open>"Cisco"\<close>; the log is flagged ingested.
\<close>

theorem ingest_chassis_record:
  assumes "parsed_output lg = before @ c # rest"
    and "\<forall>r\<in>set before. non_chassis r"
    and "chassis_tagged c"
    and "item_get c ''sn'' = Some ''ABC123''"
    and "item_get c ''pid'' = Some ''WS-C1''"
  shows "ingest upd lg =
         Inr (lg\<lparr>device := upd (device lg)
                      \<lparr>serial = Some ''ABC123'', manufacturer = ''Cisco'',
                       model_keyword = Some ''WS-C1''\<rparr>,
                  ingested := True\<rparr>)"
  using ingest_kwargs_chassis [OF assms(1-3)] assms(4,5)
  by (simp add: ingest_def MANUFACTURER_def)

theorem ingest_chassis_record_witness:
  "ingest device_update_spec
     \<lparr>parsed_output =
        [[(''name'', ''Power Supply 1''), (''sn'', ''P1''), (''pid'', ''PWR'')],
         [(''name'', ''Chassis''), (''sn'', ''ABC123''), (''pid'', ''WS-C1'')],
         [(''name'', ''Fan''), (''sn'', ''''), (''pid'', ''FAN'')]],
      ingested = False,
      device = \<lparr>dev_serial = None, dev_manufacturer = None, dev_model = None\<rparr>\<rparr>
   = Inr
     \<lparr>parsed_output =
        [[(''name'', ''Power Supply 1''), (''sn'', ''P1''), (''pid'', ''PWR'')],
         [(''name'', ''Chassis''), (''sn'', ''ABC123''), (''pid'', ''WS-C1'')],
         [(''name'', ''Fan''), (''sn'', ''''), (''pid'', ''FAN'')]],
      ingested = True,
      device = \<lparr>dev_serial = Some ''ABC123'', dev_manufacturer = Some ''Cisco'',
                dev_model = Some ''WS-C1''\<rparr>\<rparr>"
  using ingest_chassis_record
    [of "\<lparr>parsed_output =
            [[(''name'', ''Power Supply 1''), (''sn'', ''P1''), (''pid'', ''PWR'')],
             [(''name'', ''Chassis''), (''sn'', ''ABC123''), (''pid'', ''WS-C1'')],
             [(''name'', ''Fan''), (''sn'', ''''), (''pid'', ''FAN'')]],
          ingested = False,
          device = \<lparr>dev_serial = None, dev_manufacturer = None, dev_model = None\<rparr>\<rparr>"
        "[[(''name'', ''Power Supply 1''), (''sn'', ''P1''), (''pid'', ''PWR'')]]"
        "[(''name'', ''Chassis''), (''sn'', ''ABC123''), (''pid'', ''WS-C1'')]"
        "[[(''name'', ''Fan''), (''sn'', ''''), (''pid'', ''FAN'')]]"
        device_update_spec]
  by (simp add: non_chassis_def chassis_tagged_def item_get_def lower_def lower_char_def
      device_update_spec_def set_if_present_def)

text \<open>
  C5. When no record of the parsed output mentions chassis in its name (each record has a
  name without it) and the first record has \<open>name\<close>, \<open>sn\<close> and \<open>pid\<close> present (non-empty,
  which is what the source tests), \<open>ingest\<close> calls \<open>device.update\<close> with that record's
  \<open>sn\<close> as serial and its \<open>pid\<close> as model keyword, not with the default model.
\<close>

theorem ingest_first_record:
  assumes "parsed_output lg = f # rest"
    and "\<forall>r\<in>set (parsed_output lg). non_chassis r"
    and "truthy (item_get f ''name'')"
    and "item_get f ''sn'' = Some sn" and "sn \<noteq> []"
    and "item_get f ''pid'' = Some pid" and "pid \<noteq> []"
  shows "ingest upd lg =
         Inr (lg\<lparr>device := upd (device lg)
                      \<lparr>serial = Some sn, manufacturer = MANUFACTURER,
                       model_keyword = Some pid\<rparr>,
                  ingested := True\<rparr>)"
proof -
  have "truthy (item_get f ''sn'')" "truthy (item_get f ''pid'')"
    using assms(4-7) by (simp_all add: truthy_def)
  from ingest_kwargs_first [OF assms(1,2,3) this] assms(4,6)
  show ?thesis by (simp add: ingest_def)
qed

theorem ingest_first_record_witness:
  "ingest device_update_spec
     \<lparr>parsed_output =
        [[(''name'', ''1''), (''sn'', ''FOC1''), (''pid'', ''WS-C2960'')],
         [(''name'', ''Fan''), (''sn'', ''''), (''pid'', ''FAN'')]],
      ingested = False,
      device = \<lparr>dev_serial = None, dev_manufacturer = None, dev_model = None\<rparr>\<rparr>
   = Inr
     \<lparr>parsed_output =
        [[(''name'', ''1''), (''sn'', ''FOC1''), (''pid'', ''WS-C2960'')],
         [(''name'', ''Fan''), (''sn'', ''''), (''pid'', ''FAN'')]],
      ingested = True,
      device = \<lparr>dev_serial = Some ''FOC1'', dev_manufacturer = Some ''Cisco'',
                dev_model = Some ''WS-C2960''\<rparr>\<rparr>"
  using ingest_first_record
    [of "\<lparr>parsed_output =
            [[(''name'', ''1''), (''sn'', ''FOC1''), (''pid'', ''WS-C2960'')],
             [(''name'', ''Fan''), (''sn'', ''''), (''pid'', ''FAN'')]],
          ingested = False,
          device = \<lparr>dev_serial = None, dev_manufacturer = None, dev_model = None\<rparr>\<rparr>"
        "[(''name'', ''1''), (''sn'', ''FOC1''), (''pid'', ''WS-C2960'')]"
        "[[(''name'', ''Fan''), (''sn'', ''''), (''pid'', ''FAN'')]]"
        "''FOC1''" "''WS-C2960''" device_update_spec]
  by (simp add: non_chassis_def item_get_def lower_def lower_char_def truthy_def
      MANUFACTURER_def device_update_spec_def set_if_present_def)

text \<open>
  C9. Applying \<open>ingest\<close> to a log and then again to the resulting log computes the same
  keyword arguments for \<open>device.update\<close> both times and leaves the same state as one
  application, for every \<open>device.update\<close> that gives the same Device when the same fields
  are written twice. A log on which \<open>ingest\<close> raises is left as it was, both times.
\<close>

theorem ingest_twice:
  assumes "\<forall>d kwargs. upd (upd d kwargs) kwargs = upd d kwargs"
  shows "ingest_kwargs (parsed_output (after_ingest upd lg)) = ingest_kwargs (parsed_output lg)
         \<and> after_ingest upd (after_ingest upd lg) = after_ingest upd lg"
  using assms
  by (cases "ingest_kwargs (parsed_output lg)") (simp_all add: after_ingest_def ingest_def)

theorem ingest_twice_witness:
  "after_ingest device_update_spec
     (after_ingest device_update_spec
        \<lparr>parsed_output = [[(''name'', ''Chassis''), (''sn'', ''ABC123''), (''pid'', ''WS-C1'')]],
         ingested = False,
         device = \<lparr>dev_serial = Some ''OLD'', dev_manufacturer = None, dev_model = None\<rparr>\<rparr>)
   = \<lparr>parsed_output = [[(''name'', ''Chassis''), (''sn'', ''ABC123''), (''pid'', ''WS-C1'')]],
      ingested = True,
      device = \<lparr>dev_serial = Some ''ABC123'', dev_manufacturer = Some ''Cisco'',
                dev_model = Some ''WS-C1''\<rparr>\<rparr>"
proof -
  have idem: "\<forall>d kwargs. device_update_spec (device_update_spec d kwargs) kwargs
                = device_update_spec d kwargs"
    by (simp add: device_update_spec_def set_if_present_def split: option.splits)
  have once: "after_ingest device_update_spec
        \<lparr>parsed_output = [[(''name'', ''Chassis''), (''sn'', ''ABC123''), (''pid'', ''WS-C1'')]],
         ingested = False,
         device = \<lparr>dev_serial = Some ''OLD'', dev_manufacturer = None, dev_model = None\<rparr>\<rparr>
     = \<lparr>parsed_output = [[(''name'', ''Chassis''), (''sn'', ''ABC123''), (''pid'', ''WS-C1'')]],
      ingested = True,
      device = \<lparr>dev_serial = Some ''ABC123'', dev_manufacturer = Some ''Cisco'',
                dev_model = Some ''WS-C1''\<rparr>\<rparr>"
    by (simp add: after_ingest_def ingest_def ingest_kwargs_def first_entry_def item_get_def
        lower_def lower_char_def MANUFACTURER_def device_update_spec_def set_if_present_def)
  from ingest_twice
    [OF idem,
     of "\<lparr>parsed_output = [[(''name'', ''Chassis''), (''sn'', ''ABC123''), (''pid'', ''WS-C1'')]],
         ingested = False,
         device = \<lparr>dev_serial = Some ''OLD'', dev_manufacturer = None, dev_model = None\<rparr>\<rparr>"]
  have "after_ingest device_update_spec
     (after_ingest device_update_spec
        \<lparr>parsed_output = [[(''name'', ''Chassis''), (''sn'', ''ABC123''), (''pid'', ''WS-C1'')]],
         ingested = False,
         device = \<lparr>dev_serial = Some ''OLD'', dev_manufacturer = None, dev_model = None\<rparr>\<rparr>)
     = after_ingest device_update_spec
        \<lparr>parsed_output = [[(''name'', ''Chassis''), (''sn'', ''ABC123''), (''pid'', ''WS-C1'')]],
         ingested = False,
         device = \<lparr>dev_serial = Some ''OLD'', dev_manufacturer = None, dev_model = None\<rparr>\<rparr>"
    by (rule conjunct2)
  also note once
  finally show ?thesis .
qed

text \<open>
  C10. On a log whose parsed output is the empty list, \<open>ingest\<close> raises \<open>IndexError\<close> (at
  \<open>log.parsed_output[0]\<close>) whatever \<open>device.update\<close> is, so before calling it; the Device
  and the \<open>ingested\<close> flag stay as they were.
\<close>

theorem ingest_empty_output:
  assumes "parsed_output lg = []"
  shows "ingest upd lg = Inl IndexError
         \<and> device (after_ingest upd lg) = device lg
         \<and> ingested (after_ingest upd lg) = ingested lg"
  using assms by (simp add: after_ingest_def ingest_def ingest_kwargs_def first_entry_def)

theorem ingest_empty_output_witness:
  "ingest device_update_spec
     \<lparr>parsed_output = [], ingested = False,
      device = \<lparr>dev_serial = Some ''OLD'', dev_manufacturer = None, dev_model = None\<rparr>\<rparr>
   = Inl IndexError
   \<and> ingested (after_ingest device_update_spec
        \<lparr>parsed_output = [], ingested = False,
         device = \<lparr>dev_serial = Some ''OLD'', dev_manufacturer = None, dev_model = None\<rparr>\<rparr>)
     = False"
  using ingest_empty_output
    [of "\<lparr>parsed_output = [], ingested = False,
          device = \<lparr>dev_serial = Some ''OLD'', dev_manufacturer = None, dev_model = None\<rparr>\<rparr>"
        device_update_spec]
  by simp

section \<open>Properties of the replay script\<close>

lemma select_logs_not_ingested:
  "\<not> REINGEST cfg \<Longrightarrow> l \<in> set (select_logs cfg tbl) \<Longrightarrow> \<not> log_ingested l"
  by (auto simp: select_logs_def Let_def split: if_splits)

lemma select_logs_subset: "set (select_logs cfg tbl) \<subseteq> set tbl"
  by (auto simp: select_logs_def Let_def split: if_splits)

text \<open>The loop runs over the logs in ascending \<open>order\<close>.\<close>

lemma select_logs_sorted: "sorted (map log_order (select_logs cfg tbl))"
  by (auto simp: select_logs_def Let_def sorted_filter)

text \<open>The loop calls the ingestor on the logs of its sequence and on nothing else.\<close>

lemma ingest_loop_cong:
  "(\<And>l w. l \<in> set ls \<Longrightarrow> li l w = li' l w) \<Longrightarrow>
   ingest_loop stop li ls s = ingest_loop stop li' ls s"
  by (induction ls arbitrary: s) (auto simp: Let_def split: prod.splits option.splits)

lemma ingest_loop_append_ok:
  "ingest_loop stop li pre s = (s1, None) \<Longrightarrow>
   ingest_loop stop li (pre @ post) s = ingest_loop stop li post s1"
  by (induction pre arbitrary: s)
     (auto simp: Let_def split: prod.splits option.splits if_splits)

lemma ingest_loop_continue_None: "snd (ingest_loop False li ls s) = None"
  by (induction ls arbitrary: s) (auto simp: Let_def split: prod.splits option.splits)

lemma attempted_append: "attempted (xs @ ys) = attempted xs @ attempted ys"
  by (induction xs rule: attempted.induct) auto

lemma ingest_loop_continue_attempted:
  "attempted (printed (fst (ingest_loop False li ls s))) =
   attempted (printed s) @ map log_id ls"
  by (induction ls arbitrary: s)
     (auto simp: Let_def attempted_append split: prod.splits option.splits)

text \<open>
  C6. Without force (\<open>REINGEST = False\<close>) no log of the sequence the loop runs over has
  \<open>ingested = true\<close>; the run is the same for any two ingestors that agree on the logs not
  yet ingested, so the ingestor is never invoked on an ingested log; and on a table whose
  logs are all ingested the run returns with the state (log table, topology entities,
  printed text) unchanged.
\<close>

theorem replay_skips_ingested:
  assumes "\<not> REINGEST cfg"
  shows "(\<forall>l\<in>set (select_logs cfg (log_table s)). \<not> log_ingested l)
         \<and> ((\<forall>l w. \<not> log_ingested l \<longrightarrow> li l w = li' l w) \<longrightarrow>
              replay cfg li s = replay cfg li' s)
         \<and> ((\<forall>l\<in>set (log_table s). log_ingested l) \<longrightarrow> replay cfg li s = (s, None))"
proof (intro conjI impI)
  show fresh: "\<forall>l\<in>set (select_logs cfg (log_table s)). \<not> log_ingested l"
    using assms select_logs_not_ingested by blast
  show "replay cfg li s = replay cfg li' s"
    if "\<forall>l w. \<not> log_ingested l \<longrightarrow> li l w = li' l w"
    unfolding replay_def using that fresh by (intro ingest_loop_cong) blast
  show "replay cfg li s = (s, None)" if all: "\<forall>l\<in>set (log_table s). log_ingested l"
  proof -
    have "select_logs cfg (log_table s) = []"
    proof (cases "select_logs cfg (log_table s)")
      case Nil
      then show ?thesis .
    next
      case (Cons l ls)
      then have "l \<in> set (select_logs cfg (log_table s))" by simp
      with fresh all select_logs_subset [of cfg "log_table s"] show ?thesis by blast
    qed
    then show ?thesis by (simp add: replay_def)
  qed
qed

theorem replay_skips_ingested_witness:
  "select_logs script_settings [example_row 2296 1 True, example_row 3 2 True] = []
   \<and> replay script_settings example_log_ingest
        \<lparr>log_table = [example_row 2296 1 True, example_row 3 2 True],
         topology = [], printed = []\<rparr>
     = (\<lparr>log_table = [example_row 2296 1 True, example_row 3 2 True],
         topology = [], printed = []\<rparr>, None)"
proof -
  have no_force: "\<not> REINGEST script_settings"
    by (simp add: script_settings_def)
  have flagged: "\<forall>l\<in>set (log_table
        \<lparr>log_table = [example_row 2296 1 True, example_row 3 2 True],
         topology = ([]::int list), printed = []\<rparr>). log_ingested l"
    by (simp add: example_row_def)
  have none: "select_logs script_settings [example_row 2296 1 True, example_row 3 2 True] = []"
    by (simp add: select_logs_def script_settings_def example_row_def)
  from replay_skips_ingested
    [OF no_force,
     of "\<lparr>log_table = [example_row 2296 1 True, example_row 3 2 True],
         topology = ([]::int list), printed = []\<rparr>"
        example_log_ingest example_log_ingest]
    flagged none
  show ?thesis by blast
qed

text \<open>
  C7. Let the sequence selected by the script be \<open>pre @ l # post\<close>, let the loop get
  through \<open>pre\<close> without leaving, and let the ingestor raise \<open>e\<close> on \<open>l\<close>. With
  \<open>STOP_ON_ERROR = True\<close> the script ends with \<open>e\<close> raised to the caller, in the state
  reached after \<open>pre\<close> plus the line \<open>failed\<close> for \<open>l\<close>: the log table is as it was before
  \<open>l\<close>, so the flag of \<open>l\<close> is not set, and nothing of \<open>post\<close> is processed. With
  \<open>STOP_ON_ERROR = False\<close> the line \<open>failed\<close> is printed for \<open>l\<close>, the loop goes on over all
  of \<open>post\<close> from that state, every log of the sequence is started, and no exception leaves
  the script.
\<close>

theorem replay_failure:
  assumes "select_logs cfg (log_table s) = pre @ l # post"
    and "ingest_loop (STOP_ON_ERROR cfg) li pre s = (s1, None)"
    and "li l (topology s1) = (w, Some e)"
  shows "(STOP_ON_ERROR cfg \<longrightarrow>
            replay cfg li s =
              (s1\<lparr>topology := w,
                  printed := printed s1 @
                    [Ingesting (log_id l) (log_command l) (log_address l), Failed]\<rparr>,
               Some e))
         \<and> (\<not> STOP_ON_ERROR cfg \<longrightarrow>
            replay cfg li s =
              ingest_loop False li post
                (s1\<lparr>topology := w,
                    printed := printed s1 @
                      [Ingesting (log_id l) (log_command l) (log_address l), Failed]\<rparr>)
            \<and> snd (replay cfg li s) = None
            \<and> attempted (printed (fst (replay cfg li s))) =
                attempted (printed s) @ map log_id (pre @ l # post))"
proof -
  have split: "replay cfg li s = ingest_loop (STOP_ON_ERROR cfg) li (l # post) s1"
    unfolding replay_def assms(1) using assms(2) by (rule ingest_loop_append_ok)
  have all: "replay cfg li s = ingest_loop (STOP_ON_ERROR cfg) li (pre @ l # post) s"
    by (simp add: replay_def assms(1))
  show ?thesis
  proof (cases "STOP_ON_ERROR cfg")
    case True
    then show ?thesis using split assms(3) by (simp add: Let_def)
  next
    case False
    have "replay cfg li s =
          ingest_loop False li post
            (s1\<lparr>topology := w,
                printed := printed s1 @
                  [Ingesting (log_id l) (log_command l) (log_address l), Failed]\<rparr>)"
      using split assms(3) False by (simp add: Let_def)
    moreover have "snd (replay cfg li s) = None"
      using all False by (simp add: ingest_loop_continue_None)
    moreover have "attempted (printed (fst (replay cfg li s))) =
                   attempted (printed s) @ map log_id (pre @ l # post)"
      using all False by (simp only: ingest_loop_continue_attempted)
    ultimately show ?thesis using False by blast
  qed
qed

theorem replay_failure_witness:
  "replay (script_settings\<lparr>LOGS := []\<rparr>) example_log_ingest example_start
   = (\<lparr>log_table =
         [example_row 3 2 False, example_row 2 1 False, example_row 1 0 True,
          example_row 7 0 True],
       topology = [1],
       printed =
         [Ingesting 1 ''show inventory'' ''10.0.0.1'', Done,
          Ingesting 2 ''show inventory'' ''10.0.0.1'', Failed]\<rparr>,
      Some ''IngestError'')
   \<and> replay (script_settings\<lparr>LOGS := [], STOP_ON_ERROR := False\<rparr>) example_log_ingest
        example_start
   = (\<lparr>log_table =
         [example_row 3 2 True, example_row 2 1 False, example_row 1 0 True,
          example_row 7 0 True],
       topology = [1, 3],
       printed =
         [Ingesting 1 ''show inventory'' ''10.0.0.1'', Done,
          Ingesting 2 ''show inventory'' ''10.0.0.1'', Failed,
          Ingesting 3 ''show inventory'' ''10.0.0.1'', Done]\<rparr>,
      None)"
proof -
  have sel: "select_logs cfg (log_table example_start) =
             [example_row 1 0 False] @ example_row 2 1 False # [example_row 3 2 False]"
    if "FILTERS cfg = []" "LOGS cfg = []" "COMMAND cfg = []" "\<not> REINGEST cfg" for cfg
    using that
    by (simp add: select_logs_def example_start_def example_table_def example_row_def)
  have pre: "ingest_loop stop example_log_ingest [example_row 1 0 False] example_start
             = (example_after_first, None)" for stop
    by (simp add: example_log_ingest_def example_row_def save_log_def example_start_def
        example_table_def example_after_first_def)
  have call: "example_log_ingest (example_row 2 1 False) (topology example_after_first)
              = ([1], Some ''IngestError'')"
    by (simp add: example_log_ingest_def example_row_def example_after_first_def)
  have stop_run: "replay (script_settings\<lparr>LOGS := []\<rparr>) example_log_ingest example_start
    = (example_after_first\<lparr>topology := [1],
          printed := printed example_after_first @
            [Ingesting (log_id (example_row 2 1 False)) (log_command (example_row 2 1 False))
               (log_address (example_row 2 1 False)), Failed]\<rparr>,
       Some ''IngestError'')"
    using replay_failure [OF sel pre call, of "script_settings\<lparr>LOGS := []\<rparr>"]
    by (simp add: script_settings_def)
  have cont_run: "replay (script_settings\<lparr>LOGS := [], STOP_ON_ERROR := False\<rparr>)
        example_log_ingest example_start
    = ingest_loop False example_log_ingest [example_row 3 2 False]
        (example_after_first\<lparr>topology := [1],
          printed := printed example_after_first @
            [Ingesting (log_id (example_row 2 1 False)) (log_command (example_row 2 1 False))
               (log_address (example_row 2 1 False)), Failed]\<rparr>)"
    using replay_failure [OF sel pre call,
        of "script_settings\<lparr>LOGS := [], STOP_ON_ERROR := False\<rparr>"]
    by (simp add: script_settings_def)
  show ?thesis
    unfolding stop_run cont_run
    by (simp add: example_after_first_def example_row_def example_log_ingest_def save_log_def)
qed

section \<open>Properties of \<open>discovery\<close>\<close>

lemma discoverable_get_address:
  "discoverable_get db a flag = Some d \<Longrightarrow> disc_address d = a"
  by (auto simp: discoverable_get_def find_Some_iff split: option.splits if_splits)

lemma discoverable_get_create:
  "discoverable_get (discoverylog_create lg db) a flag = discoverable_get db a flag"
  by (simp add: discoverable_get_def discoverylog_create_def)

lemma discoverable_get_flag:
  "discoverable_get db a True = map_option (\<lambda>d. d\<lparr>discovered := True\<rparr>) (discoverable_get db a False)"
  by (simp add: discoverable_get_def split: option.splits)

lemma find_replace:
  "find (\<lambda>d. disc_address d = a)
     (map (\<lambda>row. if disc_address row = disc_address obj then obj else row) tbl) =
   (if a = disc_address obj
    then map_option (\<lambda>d. obj) (find (\<lambda>d. disc_address d = a) tbl)
    else find (\<lambda>d. disc_address d = a) tbl)"
  by (induction tbl) auto

lemma discoverable_get_update:
  assumes "discoverable_get db a0 True = Some obj"
  shows "discoverable_get (discoverable_update obj db) a flag =
         (if a = a0 then Some obj else discoverable_get db a flag)"
proof -
  have addr: "disc_address obj = a0"
    using assms by (rule discoverable_get_address)
  have set: "obj\<lparr>discovered := True\<rparr> = obj"
    using assms by (auto simp: discoverable_get_def split: option.splits)
  have found: "find (\<lambda>d. disc_address d = a0) (discoverables db) \<noteq> None"
    using assms by (auto simp: discoverable_get_def split: option.splits)
  have "discoverable_get (discoverable_update obj db) a flag =
        (case (if a = disc_address obj
               then map_option (\<lambda>d. obj) (find (\<lambda>d. disc_address d = a) (discoverables db))
               else find (\<lambda>d. disc_address d = a) (discoverables db)) of
           None \<Rightarrow> None
         | Some d \<Rightarrow> Some (if flag then d\<lparr>discovered := True\<rparr> else d))"
    by (simp add: discoverable_get_def discoverable_update_def find_replace)
  then show ?thesis
    using found set addr
    by (auto simp: discoverable_get_def split: option.splits)
qed

text \<open>What the loop over the results of one host leaves when it does not raise.\<close>

lemma save_results_Inr:
  assumes "save_results jl jd rs (db, hl, fl) = Inr (db', hl', fl')"
  shows "discoverables db' = discoverables db
         \<and> discovery_logs db' = discovery_logs db @
             map (\<lambda>r. \<lparr>dl_command = details_get (the (jl (res_name r))) ''command'',
                        dl_discoverable_id =
                          disc_id (the (discoverable_get db (res_hostname r) False)),
                        dl_raw_output = jd (res_result r),
                        dl_template = details_get (the (jl (res_name r))) ''template'',
                        dl_order = details_get (the (jl (res_name r))) ''order'',
                        dl_details = the (jl (res_name r))\<rparr>)
               (filter (\<lambda>r. res_name r \<noteq> ''multiple_tasks'') rs)
         \<and> set hl' = set hl \<union>
             res_hostname ` {r \<in> set rs. res_name r \<noteq> ''multiple_tasks''}
         \<and> set fl' = set fl \<union>
             res_hostname ` {r \<in> set rs. res_name r \<noteq> ''multiple_tasks'' \<and> res_failed r}
         \<and> (\<forall>r\<in>set rs. res_name r \<noteq> ''multiple_tasks'' \<longrightarrow>
               discoverable_get db (res_hostname r) False \<noteq> None)"
  using assms
proof (induction rs arbitrary: db hl fl)
  case Nil
  then show ?case by simp
next
  case (Cons r rs)
  show ?case
  proof (cases "res_name r = ''multiple_tasks''")
    case True
    with Cons.prems have "save_results jl jd rs (db, hl, fl) = Inr (db', hl', fl')"
      by simp
    from Cons.IH [OF this] True show ?thesis by auto
  next
    case False
    from Cons.prems False obtain details where d: "jl (res_name r) = Some details"
      by (auto split: option.splits)
    from Cons.prems False d obtain obj
      where o: "discoverable_get db (res_hostname r) False = Some obj"
      by (auto split: option.splits)
    have addr: "disc_address obj = res_hostname r"
      using o by (rule discoverable_get_address)
    define lg where "lg =
      \<lparr>dl_command = details_get details ''command'', dl_discoverable_id = disc_id obj,
       dl_raw_output = jd (res_result r), dl_template = details_get details ''template'',
       dl_order = details_get details ''order'', dl_details = details\<rparr>"
    have step: "save_results jl jd rs
        (discoverylog_create lg db,
         (if res_hostname r \<notin> set hl then hl @ [res_hostname r] else hl),
         (if res_failed r \<and> res_hostname r \<notin> set fl then fl @ [res_hostname r] else fl))
        = Inr (db', hl', fl')"
      using Cons.prems False d o by (simp add: addr lg_def cong: if_cong)
    note ih = Cons.IH [OF step, unfolded discoverable_get_create]
    have logs: "discovery_logs (discoverylog_create lg db) = discovery_logs db @ [lg]"
      and tbl: "discoverables (discoverylog_create lg db) = discoverables db"
      by (simp_all add: discoverylog_create_def)
    show ?thesis
      using ih False d o unfolding logs tbl
      by (auto simp: lg_def)
  qed
qed

lemma save_results_ok:
  assumes "\<forall>r\<in>set rs. res_name r \<noteq> ''multiple_tasks'' \<longrightarrow>
             jl (res_name r) \<noteq> None \<and> discoverable_get db (res_hostname r) False \<noteq> None"
  shows "\<exists>acc. save_results jl jd rs (db, hl, fl) = Inr acc"
  using assms
proof (induction rs arbitrary: db hl fl)
  case Nil
  then show ?case by simp
next
  case (Cons r rs)
  have rest: "\<forall>r\<in>set rs. res_name r \<noteq> ''multiple_tasks'' \<longrightarrow>
      jl (res_name r) \<noteq> None \<and>
      discoverable_get (discoverylog_create lg db) (res_hostname r) False \<noteq> None" for lg
    using Cons.prems by (simp add: discoverable_get_create)
  show ?case
  proof (cases "res_name r = ''multiple_tasks''")
    case True
    then show ?thesis using Cons.IH [of db hl fl] Cons.prems by simp
  next
    case False
    with Cons.prems obtain details obj where "jl (res_name r) = Some details"
      and "discoverable_get db (res_hostname r) False = Some obj"
      by auto
    then show ?thesis using False Cons.IH [OF rest] by simp
  qed
qed

lemma discoverable_get_cong:
  "discoverables db1 = discoverables db \<Longrightarrow>
   discoverable_get db1 a flag = discoverable_get db a flag"
  by (simp add: discoverable_get_def)

lemma query_results_Nil: "query_results [] = []"
  by (simp add: query_results_def)

lemma query_results_Cons:
  "query_results ((key, multi_result) # rest) =
   filter (\<lambda>r. res_name r \<noteq> ''multiple_tasks'') multi_result @ query_results rest"
  by (simp add: query_results_def)

text \<open>The same for the whole run.\<close>

lemma save_outputs_Inr:
  assumes "save_outputs jl jd ar (db, hl, fl) = Inr (db', hl', fl')"
  shows "discoverables db' = discoverables db
         \<and> discovery_logs db' = discovery_logs db @
             map (\<lambda>r. \<lparr>dl_command = details_get (the (jl (res_name r))) ''command'',
                        dl_discoverable_id =
                          disc_id (the (discoverable_get db (res_hostname r) False)),
                        dl_raw_output = jd (res_result r),
                        dl_template = details_get (the (jl (res_name r))) ''template'',
                        dl_order = details_get (the (jl (res_name r))) ''order'',
                        dl_details = the (jl (res_name r))\<rparr>)
               (query_results ar)
         \<and> set hl' = set hl \<union> res_hostname ` set (query_results ar)
         \<and> set fl' = set fl \<union> res_hostname ` {r \<in> set (query_results ar). res_failed r}
         \<and> (\<forall>r\<in>set (query_results ar).
               discoverable_get db (res_hostname r) False \<noteq> None)"
  using assms
proof (induction ar arbitrary: db hl fl)
  case Nil
  then show ?case by (simp add: query_results_Nil)
next
  case (Cons entry ar)
  obtain key multi_result where entry: "entry = (key, multi_result)"
    by (cases entry)
  from Cons.prems obtain db1 hl1 fl1
    where first: "save_results jl jd multi_result (db, hl, fl) = Inr (db1, hl1, fl1)"
      and rest: "save_outputs jl jd ar (db1, hl1, fl1) = Inr (db', hl', fl')"
    by (auto simp: entry split: sum.splits)
  note a = save_results_Inr [OF first]
  from a have tbl: "discoverables db1 = discoverables db" by blast
  note b = Cons.IH [OF rest, unfolded discoverable_get_cong [OF tbl]]
  have t: "discoverables db' = discoverables db"
    using a b by simp
  have l: "discovery_logs db' = discovery_logs db @
             map (\<lambda>r. \<lparr>dl_command = details_get (the (jl (res_name r))) ''command'',
                        dl_discoverable_id =
                          disc_id (the (discoverable_get db (res_hostname r) False)),
                        dl_raw_output = jd (res_result r),
                        dl_template = details_get (the (jl (res_name r))) ''template'',
                        dl_order = details_get (the (jl (res_name r))) ''order'',
                        dl_details = the (jl (res_name r))\<rparr>)
               (query_results (entry # ar))"
    using a b by (simp add: entry query_results_Cons)
  have h: "set hl' = set hl \<union> res_hostname ` set (query_results (entry # ar))"
    using a b by (auto simp: entry query_results_Cons)
  have f: "set fl' = set fl \<union>
             res_hostname ` {r \<in> set (query_results (entry # ar)). res_failed r}"
    using a b by (auto simp: entry query_results_Cons)
  have g: "\<forall>r\<in>set (query_results (entry # ar)).
             discoverable_get db (res_hostname r) False \<noteq> None"
    using a b by (auto simp: entry query_results_Cons)
  from t l h f g show ?case by blast
qed

lemma save_outputs_ok:
  assumes "\<forall>r\<in>set (query_results ar).
             jl (res_name r) \<noteq> None \<and> discoverable_get db (res_hostname r) False \<noteq> None"
  shows "\<exists>acc. save_outputs jl jd ar (db, hl, fl) = Inr acc"
  using assms
proof (induction ar arbitrary: db hl fl)
  case Nil
  then show ?case by simp
next
  case (Cons entry ar)
  obtain key multi_result where entry: "entry = (key, multi_result)"
    by (cases entry)
  have "\<forall>r\<in>set multi_result. res_name r \<noteq> ''multiple_tasks'' \<longrightarrow>
          jl (res_name r) \<noteq> None \<and> discoverable_get db (res_hostname r) False \<noteq> None"
    using Cons.prems by (simp add: entry query_results_Cons)
  from save_results_ok [OF this, of jd hl fl] obtain db1 hl1 fl1
    where first: "save_results jl jd multi_result (db, hl, fl) = Inr (db1, hl1, fl1)"
    by (metis prod_cases3)
  have tbl: "discoverables db1 = discoverables db"
    using save_results_Inr [OF first] by blast
  have "\<forall>r\<in>set (query_results ar).
          jl (res_name r) \<noteq> None \<and> discoverable_get db1 (res_hostname r) False \<noteq> None"
    using Cons.prems by (simp add: entry query_results_Cons discoverable_get_cong [OF tbl])
  from Cons.IH [OF this, of hl1 fl1] first show ?case
    by (simp add: entry)
qed

text \<open>The marking loop.\<close>

lemma discovery_logs_update:
  "discovery_logs (discoverable_update obj db) = discovery_logs db"
  by (simp add: discoverable_update_def)

lemma mark_discovered_Inr:
  assumes "mark_discovered hl fl db = Inr db'"
  shows "discovery_logs db' = discovery_logs db
         \<and> discoverable_get db' a False =
             (if a \<in> set hl \<and> a \<notin> set fl then discoverable_get db a True
              else discoverable_get db a False)"
  using assms
proof (induction hl arbitrary: db)
  case Nil
  then show ?case by simp
next
  case (Cons a0 hl)
  show ?case
  proof (cases "a0 \<in> set fl")
    case True
    with Cons.prems have "mark_discovered hl fl db = Inr db'" by simp
    from Cons.IH [OF this] True show ?thesis by auto
  next
    case False
    with Cons.prems obtain obj where o: "discoverable_get db a0 True = Some obj"
      and rest: "mark_discovered hl fl (discoverable_update obj db) = Inr db'"
      by (auto split: option.splits)
    note upd = discoverable_get_update [OF o]
    from Cons.IH [OF rest] False o show ?thesis
      by (auto simp: upd discovery_logs_update)
  qed
qed

lemma mark_discovered_ok:
  assumes "\<forall>a\<in>set hl. discoverable_get db a False \<noteq> None"
  shows "\<exists>db'. mark_discovered hl fl db = Inr db'"
  using assms
proof (induction hl arbitrary: db)
  case Nil
  then show ?case by simp
next
  case (Cons a0 hl)
  show ?case
  proof (cases "a0 \<in> set fl")
    case True
    then show ?thesis using Cons.IH [of db] Cons.prems by simp
  next
    case False
    from Cons.prems obtain obj where o: "discoverable_get db a0 True = Some obj"
      by (auto simp: discoverable_get_flag)
    have "\<forall>a\<in>set hl. discoverable_get (discoverable_update obj db) a False \<noteq> None"
      using Cons.prems by (simp add: discoverable_get_update [OF o])
    from Cons.IH [OF this] False o show ?thesis by simp
  qed
qed

lemma discovery_Inr:
  assumes "discovery jl jd ar db = Inr db'"
  shows "discovery_logs db' = discovery_logs db @
           map (\<lambda>r. \<lparr>dl_command = details_get (the (jl (res_name r))) ''command'',
                      dl_discoverable_id =
                        disc_id (the (discoverable_get db (res_hostname r) False)),
                      dl_raw_output = jd (res_result r),
                      dl_template = details_get (the (jl (res_name r))) ''template'',
                      dl_order = details_get (the (jl (res_name r))) ''order'',
                      dl_details = the (jl (res_name r))\<rparr>)
             (query_results ar)
         \<and> discoverable_get db' a False =
             (if a \<in> set (map res_hostname (query_results ar))
                 \<and> a \<notin> set (map res_hostname (filter res_failed (query_results ar)))
              then discoverable_get db a True
              else discoverable_get db a False)"
proof -
  from assms obtain db1 hl fl
    where first: "save_outputs jl jd ar (db, [], []) = Inr (db1, hl, fl)"
      and mark: "mark_discovered hl fl db1 = Inr db'"
    by (auto simp: discovery_def split: sum.splits)
  note a = save_outputs_Inr [OF first]
  from a have tbl: "discoverables db1 = discoverables db" by blast
  note b = mark_discovered_Inr [OF mark, of a, unfolded discoverable_get_cong [OF tbl]]
  have hl: "set hl = set (map res_hostname (query_results ar))"
    using a by simp
  have fl: "set fl = set (map res_hostname (filter res_failed (query_results ar)))"
    using a by auto
  show ?thesis
    using a b unfolding hl fl by simp
qed

lemma discovery_ok:
  assumes "\<forall>r\<in>set (query_results ar).
             jl (res_name r) \<noteq> None \<and> discoverable_get db (res_hostname r) False \<noteq> None"
  shows "\<exists>db'. discovery jl jd ar db = Inr db'"
proof -
  from save_outputs_ok [OF assms, of jd "[]" "[]"] obtain db1 hl fl
    where first: "save_outputs jl jd ar (db, [], []) = Inr (db1, hl, fl)"
    by (metis prod_cases3)
  note a = save_outputs_Inr [OF first]
  from a have tbl: "discoverables db1 = discoverables db" by blast
  have "\<forall>a\<in>set hl. discoverable_get db1 a False \<noteq> None"
    using a by (auto simp: discoverable_get_cong [OF tbl])
  from mark_discovered_ok [OF this, of fl] first show ?thesis
    by (simp add: discovery_def)
qed

text \<open>
  C8. In a run where the name of every query result decodes and its host is a known
  Discoverable, \<open>discovery\<close> returns and the logs it has created are, in order, exactly
  one for each query result (each result that is not the \<open>multiple_tasks\<close> wrapper),
  failed or not: its raw output is the serialised payload of the result, its command,
  template and order are those of the details in the result's name.
\<close>

theorem discovery_logs_created:
  assumes "\<forall>r\<in>set (query_results ar).
             jl (res_name r) \<noteq> None \<and> discoverable_get db (res_hostname r) False \<noteq> None"
  shows "\<exists>db'. discovery jl jd ar db = Inr db'
           \<and> discovery_logs db' = discovery_logs db @
               map (\<lambda>r. \<lparr>dl_command = details_get (the (jl (res_name r))) ''command'',
                          dl_discoverable_id =
                            disc_id (the (discoverable_get db (res_hostname r) False)),
                          dl_raw_output = jd (res_result r),
                          dl_template = details_get (the (jl (res_name r))) ''template'',
                          dl_order = details_get (the (jl (res_name r))) ''order'',
                          dl_details = the (jl (res_name r))\<rparr>)
                 (query_results ar)"
proof -
  from discovery_ok [OF assms] obtain db' where run: "discovery jl jd ar db = Inr db'"
    by blast
  from discovery_Inr [OF run] run show ?thesis by blast
qed

theorem discovery_logs_created_witness:
  "\<exists>db'. discovery example_loads example_dumps
            [(''vcenter'',
              [example_wrapper, example_query False ''inventory'',
               example_query True ''Traceback''])]
            example_db = Inr db'
         \<and> discovery_logs db' = [example_log ''inventory'', example_log ''Traceback'']"
  using discovery_logs_created
    [of "[(''vcenter'',
           [example_wrapper, example_query False ''inventory'',
            example_query True ''Traceback''])]"
        example_loads example_db example_dumps]
  by (simp add: query_results_def example_wrapper_def example_query_def example_loads_def
      example_dumps_def example_db_def example_log_def discoverable_get_def details_get_def
      multiple_tasks_details_def example_name_def)







section \<open>Properties of \<open>api_query\<close>\<close>

lemma network_adapter_branch:
  assumes "network_adapter mac hw = Inr n"
  shows "case backing_port (hardware_backing hw) of
           Some p \<Rightarrow>
             switch_type n = ''dvswitch'' \<and> portgroup_id n = portgroupKey p
             \<and> portgroup_name n = None \<and> port n = portKey p
         | None \<Rightarrow>
             switch_type n = ''vswitch''
             \<and> portgroup_id n = backing_network (hardware_backing hw)
             \<and> portgroup_id n \<noteq> None
             \<and> portgroup_name n = backing_deviceName (hardware_backing hw)
             \<and> portgroup_name n \<noteq> None \<and> port n = None"
  using assms by (auto simp: network_adapter_def split: option.splits)

lemma network_adapter_shape:
  assumes "network_adapter mac hw = Inr n"
  shows "((switch_type n = ''dvswitch'' \<and> portgroup_name n = None)
          \<or> (switch_type n = ''vswitch'' \<and> portgroup_id n \<noteq> None
              \<and> portgroup_name n \<noteq> None \<and> port n = None))
         \<and> \<not> (portgroup_name n \<noteq> None \<and> port n \<noteq> None)"
  using assms by (auto simp: network_adapter_def split: option.splits)

lemma device_loop_members:
  assumes "device_loop hws nic_list = Inr out" and "n \<in> set out"
  shows "n \<in> set nic_list \<or> (\<exists>mac. \<exists>hw\<in>set hws. network_adapter mac hw = Inr n)"
  using assms
proof (induction hws arbitrary: nic_list)
  case Nil
  then show ?case by simp
next
  case (Cons hw hws)
  show ?case
  proof (cases "macAddress hw")
    case None
    with Cons.prems have "device_loop hws nic_list = Inr out" by simp
    from Cons.IH [OF this Cons.prems(2)] show ?thesis by auto
  next
    case (Some mac)
    with Cons.prems(1) obtain nic where nic: "network_adapter mac hw = Inr nic"
      and rest: "device_loop hws (nic_list @ [nic]) = Inr out"
      by (auto split: sum.splits)
    from Cons.IH [OF rest Cons.prems(2)] nic show ?thesis by auto
  qed
qed

lemma update_members:
  "(k, v) \<in> set (AList.update k' v' al) \<Longrightarrow> (k, v) \<in> set al \<or> v = v'"
  by (induction al) (auto split: if_splits)

lemma host_vms_members:
  assumes "host_vms ms d0 = Inr d" and "(k, v) \<in> set d"
  shows "(k, v) \<in> set d0 \<or> (\<exists>vm\<in>set ms. vm_data_of vm = Inr v)"
  using assms
proof (induction ms arbitrary: d0)
  case Nil
  then show ?case by simp
next
  case (Cons vm ms)
  from Cons.prems(1) obtain v0 where v0: "vm_data_of vm = Inr v0"
    and rest: "host_vms ms (AList.update (vm_str vm) v0 d0) = Inr d"
    by (auto split: sum.splits)
  from Cons.IH [OF rest Cons.prems(2)]
  show ?case using update_members [of k v "vm_str vm" v0 d0] v0 by auto
qed

lemma host_loop_members:
  assumes "host_loop hs (hosts_data, st, pd) = Inr (hosts_data', st', pd')"
    and "(k, hdata) \<in> set hosts_data'"
  shows "(k, hdata) \<in> set hosts_data
         \<or> (\<exists>h\<in>set hs. host_vms (host_vm h) [] = Inr (vms hdata))"
  using assms
proof (induction hs arbitrary: hosts_data st pd)
  case Nil
  then show ?case by simp
next
  case (Cons h hs)
  from Cons.prems(1) obtain vm_dict where vd: "host_vms (host_vm h) [] = Inr vm_dict"
    by (auto split: sum.splits)
  obtain pgs st1 pd1 where pl:
    "host_portgroup_loop (network_portgroup h) ([], st, pd) = (pgs, st1, pd1)"
    by (metis prod_cases3)
  define entry where "entry =
    \<lparr>host_id = host_str h, host_name = host_name_attr h, cluster_id = parent_str h,
     cluster_name = parent_name h, vendor = systemInfo_vendor h, model = systemInfo_model h,
     status = summary_overallStatus h, management_ip = summary_managementServerIp h,
     product_name = product_name_attr h, product_fullname = product_fullName h,
     vswitches = host_vswitches (network_vswitch h), portgroups = pgs,
     vms = vm_dict, nics = physical_nics (network_pnic h)\<rparr>"
  have e: "vms entry = vm_dict"
    by (simp add: entry_def)
  from Cons.prems(1)
  have rest: "host_loop hs (AList.update (host_str h) entry hosts_data, st1, pd1)
              = Inr (hosts_data', st', pd')"
    by (simp add: vd pl entry_def)
  from Cons.IH [OF rest Cons.prems(2)]
  show ?case using update_members [of k hdata "host_str h" entry hosts_data] e vd by auto
qed

text \<open>
  The reference that the host loop leaves in \<open>portgroup_data\<close> points into the store, so
  the reads \<open>st ! r\<close> of the loop over the distributed switches are reads of a stored
  dictionary.
\<close>

lemma host_portgroup_loop_ref:
  assumes "host_portgroup_loop pgl (pgs, st, pd) = (pgs', st', pd')"
    and "\<forall>r. pd = Some r \<longrightarrow> r < length st"
  shows "\<forall>r. pd' = Some r \<longrightarrow> r < length st'"
  using assms
  by (induction pgl arbitrary: pgs st pd) auto

lemma host_loop_ref:
  assumes "host_loop hs (hosts_data, st, pd) = Inr (hosts_data', st', pd')"
    and "\<forall>r. pd = Some r \<longrightarrow> r < length st"
  shows "\<forall>r. pd' = Some r \<longrightarrow> r < length st'"
  using assms
proof (induction hs arbitrary: hosts_data st pd)
  case Nil
  then show ?case by simp
next
  case (Cons h hs)
  obtain pgs st1 pd1 where pl:
    "host_portgroup_loop (network_portgroup h) ([], st, pd) = (pgs, st1, pd1)"
    by (metis prod_cases3)
  from host_portgroup_loop_ref [OF pl Cons.prems(2)]
  have valid: "\<forall>r. pd1 = Some r \<longrightarrow> r < length st1" .
  from Cons.prems(1) obtain entry where
    "host_loop hs (AList.update (host_str h) entry hosts_data, st1, pd1)
     = Inr (hosts_data', st', pd')"
    by (auto simp: pl split: sum.splits)
  from Cons.IH [OF this valid] show ?case .
qed

lemma api_query_example: "api_query example_inventory = Inr example_result"
  by (simp add: api_query_def example_inventory_def example_host_def example_vm_def
      example_dvswitch_def example_result_def host_vswitches_def
      physical_nics_def vm_data_of_def network_adapter_def)

text \<open>
  C2, as the claim states it, fails: for a machine whose adapter is attached to a
  distributed portgroup with no port key set, \<open>api_query\<close> returns a NIC dictionary with
  \<open>switch_type = "dvswitch"\<close> and \<open>port\<close> null, which is neither of the two shapes.
\<close>

theorem dvswitch_nic_without_port:
  "api_query_nics example_unset_port_inventory =
   Inr [\<lparr>mac_address = ''00:50:56:00:00:03'', label = ''Network adapter 1'',
         connected = ''False'', switch_type = ''dvswitch'',
         portgroup_id = Some ''dvportgroup-22'', portgroup_name = None, port = None\<rparr>]"
  by (simp add: api_query_nics_def returned_nics_def api_query_def
      example_unset_port_inventory_def example_unset_port_vm_def example_host_def
      example_vm_def example_dvswitch_def host_vswitches_def physical_nics_def
      vm_data_of_def network_adapter_def)

text \<open>
  C2, amended. Every virtual NIC dictionary in what \<open>api_query\<close> returns comes from a
  device of a machine of a host of the inventory by exactly one of the two branches: with a
  port in the backing it has \<open>switch_type = "dvswitch"\<close>, \<open>portgroup_name\<close> null, and
  \<open>portgroup_id\<close> and \<open>port\<close> are the portgroup key and the port key of the port
  connection, copied as they are (null when unset); without one it has
  \<open>switch_type = "vswitch"\<close>, the backing's network as \<open>portgroup_id\<close>, its device name as
  \<open>portgroup_name\<close>, both set, and \<open>port\<close> null. No dictionary has both a
  \<open>portgroup_name\<close> and a \<open>port\<close>.
\<close>

theorem nic_backing_branch:
  assumes "api_query content = Inr res"
    and "(host_key, hdata) \<in> set (hosts res)"
    and "(vm_key, vd) \<in> set (vms hdata)"
    and "n \<in> set (vm_nics vd)"
  shows "(\<exists>h\<in>set (view_hosts content). \<exists>vm\<in>set (host_vm h).
           \<exists>hw\<in>set (config_hardware_device vm).
             (case backing_port (hardware_backing hw) of
                Some p \<Rightarrow>
                  switch_type n = ''dvswitch'' \<and> portgroup_id n = portgroupKey p
                  \<and> portgroup_name n = None \<and> port n = portKey p
              | None \<Rightarrow>
                  switch_type n = ''vswitch''
                  \<and> portgroup_id n = backing_network (hardware_backing hw)
                  \<and> portgroup_id n \<noteq> None
                  \<and> portgroup_name n = backing_deviceName (hardware_backing hw)
                  \<and> portgroup_name n \<noteq> None \<and> port n = None))
         \<and> ((switch_type n = ''dvswitch'' \<and> portgroup_name n = None)
             \<or> (switch_type n = ''vswitch'' \<and> portgroup_id n \<noteq> None
                 \<and> portgroup_name n \<noteq> None \<and> port n = None))
         \<and> \<not> (portgroup_name n \<noteq> None \<and> port n \<noteq> None)"
proof -
  from assms(1) obtain st pd
    where hl: "host_loop (view_hosts content) ([], [], None) = Inr (hosts res, st, pd)"
    by (auto simp: api_query_def split: prod.splits sum.splits)
  from host_loop_members [OF hl assms(2)]
  have "\<exists>h\<in>set (view_hosts content). host_vms (host_vm h) [] = Inr (vms hdata)"
    by simp
  then obtain h :: host_system where h: "h \<in> set (view_hosts content)"
    and hv: "host_vms (host_vm h) [] = Inr (vms hdata)"
    by blast
  from host_vms_members [OF hv assms(3)]
  have "\<exists>vm\<in>set (host_vm h). vm_data_of vm = Inr vd"
    by simp
  then obtain vm :: virtual_machine where vm: "vm \<in> set (host_vm h)"
    and vmd: "vm_data_of vm = Inr vd"
    by blast
  from vmd have dl: "device_loop (config_hardware_device vm) [] = Inr (vm_nics vd)"
    by (auto simp: vm_data_of_def split: sum.splits)
  from device_loop_members [OF dl assms(4)]
  have "\<exists>mac. \<exists>hw\<in>set (config_hardware_device vm). network_adapter mac hw = Inr n"
    by simp
  then obtain mac and hw :: hardware where hw: "hw \<in> set (config_hardware_device vm)"
    and na: "network_adapter mac hw = Inr n"
    by blast
  note branch = network_adapter_branch [OF na]
  have first: "\<exists>h\<in>set (view_hosts content). \<exists>vm\<in>set (host_vm h).
           \<exists>hw\<in>set (config_hardware_device vm).
             (case backing_port (hardware_backing hw) of
                Some p \<Rightarrow>
                  switch_type n = ''dvswitch'' \<and> portgroup_id n = portgroupKey p
                  \<and> portgroup_name n = None \<and> port n = portKey p
              | None \<Rightarrow>
                  switch_type n = ''vswitch''
                  \<and> portgroup_id n = backing_network (hardware_backing hw)
                  \<and> portgroup_id n \<noteq> None
                  \<and> portgroup_name n = backing_deviceName (hardware_backing hw)
                  \<and> portgroup_name n \<noteq> None \<and> port n = None)"
    using h vm hw branch by blast
  from network_adapter_shape [OF na] first show ?thesis by blast
qed

theorem nic_backing_branch_witness:
  "api_query example_inventory = Inr example_result
   \<and> \<not> (portgroup_name
            \<lparr>mac_address = ''00:50:56:00:00:02'', label = ''Network adapter 2'',
             connected = ''True'', switch_type = ''dvswitch'',
             portgroup_id = Some ''dvportgroup-22'', portgroup_name = None,
             port = Some ''7''\<rparr> \<noteq> None
          \<and> port
            \<lparr>mac_address = ''00:50:56:00:00:02'', label = ''Network adapter 2'',
             connected = ''True'', switch_type = ''dvswitch'',
             portgroup_id = Some ''dvportgroup-22'', portgroup_name = None,
             port = Some ''7''\<rparr> \<noteq> None)"
proof -
  have a: "(''vim.HostSystem:host-9'', snd (hd (hosts example_result)))
           \<in> set (hosts example_result)"
    by (simp add: example_result_def)
  have b: "(''vim.VirtualMachine:vm-31'', snd (hd (vms (snd (hd (hosts example_result))))))
           \<in> set (vms (snd (hd (hosts example_result))))"
    by (simp add: example_result_def)
  have c: "\<lparr>mac_address = ''00:50:56:00:00:02'', label = ''Network adapter 2'',
         connected = ''True'', switch_type = ''dvswitch'',
         portgroup_id = Some ''dvportgroup-22'', portgroup_name = None, port = Some ''7''\<rparr>
        \<in> set (vm_nics (snd (hd (vms (snd (hd (hosts example_result)))))))"
    by (simp add: example_result_def)
  from nic_backing_branch [OF api_query_example a b c] api_query_example
  show ?thesis by blast
qed

text \<open>
  C3 does not hold of the code. On the example inventory the distributed switch has the
  portgroup \<open>dvportgroup-22\<close> named \<open>DPG-Prod\<close>, and the entry \<open>api_query\<close> returns for the
  switch has no dictionary under that id: its one dictionary is that of the host portgroup
  \<open>VM Network\<close>, under the host portgroup's key. With no host portgroup at all the call
  raises \<open>NameError\<close>.
\<close>

theorem dvswitch_portgroup_not_recorded:
  "api_query example_inventory = Inr example_result
   \<and> map (\<lambda>(k, d). (k, resolve (objects example_result) (dvswitch_portgroups d)))
        (dvswitches example_result)
     = [(''vim.dvs.VmwareDistributedVirtualSwitch:dvs-21'',
         [(''key-vim.host.PortGroup-VM Network'',
           \<lparr>pg_id = ''key-vim.host.PortGroup-VM Network'', pg_name = ''VM Network'',
            pg_vswitch_id = ''key-vim.host.VirtualSwitch-vSwitch0'',
            pg_vswitch_name = ''vSwitch0'', pg_vswitch_type = ''vswitch'',
            vlan = Some 0\<rparr>)])]
   \<and> api_query (example_inventory\<lparr>view_hosts := []\<rparr>) = Inl NameError"
proof -
  have "api_query (example_inventory\<lparr>view_hosts := []\<rparr>) = Inl NameError"
    by (simp add: api_query_def example_inventory_def example_dvswitch_def)
  moreover have "map (\<lambda>(k, d). (k, resolve (objects example_result) (dvswitch_portgroups d)))
        (dvswitches example_result)
     = [(''vim.dvs.VmwareDistributedVirtualSwitch:dvs-21'',
         [(''key-vim.host.PortGroup-VM Network'',
           \<lparr>pg_id = ''key-vim.host.PortGroup-VM Network'', pg_name = ''VM Network'',
            pg_vswitch_id = ''key-vim.host.VirtualSwitch-vSwitch0'',
            pg_vswitch_name = ''vSwitch0'', pg_vswitch_type = ''vswitch'',
            vlan = Some 0\<rparr>)])]"
    by (simp add: example_result_def resolve_def)
  ultimately show ?thesis using api_query_example by simp
qed

end
